theory Spec2Isabelle
  imports Complex_Main
begin

section \<open>Errors and numeric values\<close>

text \<open>
  The exceptions that \<^verbatim>\<open>skimage/measure/fit.py\<close> can raise on the paths embedded here.
  Floating-point numbers are embedded as real numbers: rounding and overflow are not
  part of the embedding. The non-finite values that the code produces without rounding
  (\<^verbatim>\<open>np.inf\<close>, the NaN of a square root of a negative number, a division by zero) are
  written out wherever the code can reach them. \<^verbatim>\<open>NotEmbedded\<close> marks an input on which the
  embedding does not follow the code (an array shape that numpy would reject or broadcast).
\<close>

datatype error =
    ValueError string
  | TypeError string
  | IndexError
  | ZeroDivisionError
  | FailedEstimationAccessError string
  | NotEmbedded string

text \<open>A number that is either finite or \<^verbatim>\<open>np.inf\<close> (trial bounds, residual sums).\<close>

datatype bound = Fin real | PosInf

fun bound_less :: "bound \<Rightarrow> bound \<Rightarrow> bool" where
  "bound_less (Fin a) (Fin b) = (a < b)"
| "bound_less (Fin a) PosInf = True"
| "bound_less PosInf (Fin b) = False"
| "bound_less PosInf PosInf = False"

fun bound_le :: "bound \<Rightarrow> bound \<Rightarrow> bool" where
  "bound_le (Fin a) (Fin b) = (a \<le> b)"
| "bound_le (Fin a) PosInf = True"
| "bound_le PosInf (Fin b) = False"
| "bound_le PosInf PosInf = True"

section \<open>The adaptive trial bound\<close>

text \<open>\<^verbatim>\<open>_EPSILON = np.spacing(1)\<close>: the distance from 1.0 to the next double.\<close>

definition EPSILON :: real where
  "EPSILON = 1 / 2 ^ 52"

text \<open>\<^verbatim>\<open>np.clip(x, a_min, a_max)\<close> is \<^verbatim>\<open>minimum(a_max, maximum(x, a_min))\<close>.\<close>

definition clip :: "real \<Rightarrow> real \<Rightarrow> real \<Rightarrow> real" where
  "clip x a_min a_max = min a_max (max x a_min)"

text \<open>
  \<^verbatim>\<open>_dynamic_max_trials(n_inliers, n_samples, min_samples, probability)\<close>. The three
  counts are natural numbers. \<^verbatim>\<open>n_inliers / n_samples\<close> is Python's true division,
  which raises on a zero divisor.
\<close>

definition dynamic_max_trials :: "nat \<Rightarrow> nat \<Rightarrow> nat \<Rightarrow> real \<Rightarrow> error + bound" where
  "dynamic_max_trials n_inliers n_samples min_samples probability =
     (if probability = 0 then Inr (Fin 0)
      else if n_inliers = 0 then Inr PosInf
      else if n_samples = 0 then Inl ZeroDivisionError
      else
        let inlier_ratio = real n_inliers / real n_samples;
            nom = 1 - probability;
            denom = 1 - inlier_ratio ^ min_samples;
            nom = clip nom EPSILON (1 - EPSILON);
            denom = clip denom EPSILON (1 - EPSILON)
        in Inr (Fin (of_int \<lceil>ln nom / ln denom\<rceil>)))"

section \<open>The consensus engine: data, model classes, state\<close>

text \<open>
  What \<^verbatim>\<open>from_estimate\<close> returns: a fitted model, or the falsy \<^verbatim>\<open>FailedEstimation\<close>
  carrying its message.
\<close>

datatype 'm estimation = FailedEstimation string | Fitted 'm

datatype warning = FutureWarning string | UserWarning string

text \<open>
  The \<^verbatim>\<open>data\<close> argument of \<^verbatim>\<open>ransac\<close>: one array, or a tuple or list of arrays. An
  array is the list of its rows.
\<close>

datatype 'd data_arg = Single "'d list" | Sequence "'d list list"

text \<open>
  \<^verbatim>\<open>spl_idxs\<close> is either the boolean mask \<^verbatim>\<open>initial_inliers\<close> or an integer index
  array drawn by \<^verbatim>\<open>rng.choice\<close>. \<^verbatim>\<open>d[spl_idxs]\<close> is numpy's advanced indexing: it
  builds a new array, and raises \<^verbatim>\<open>IndexError\<close> on an index out of range or on a mask
  of the wrong length.
\<close>

datatype sel = Mask "bool list" | Idxs "nat list"

fun fancy_index :: "'d list \<Rightarrow> sel \<Rightarrow> error + 'd list" where
  "fancy_index d (Idxs js) =
     (if list_all (\<lambda>j. j < length d) js then Inr (map (\<lambda>j. d ! j) js) else Inl IndexError)"
| "fancy_index d (Mask bs) =
     (if length bs = length d then Inr (map fst (filter snd (zip d bs))) else Inl IndexError)"

text \<open>\<^verbatim>\<open>[d[idx] for d in data]\<close>\<close>

fun gather :: "'d list list \<Rightarrow> sel \<Rightarrow> error + 'd list list" where
  "gather [] idx = Inr []"
| "gather (d # ds) idx =
     (case fancy_index d idx of
        Inl e \<Rightarrow> Inl e
      | Inr x \<Rightarrow> (case gather ds idx of Inl e \<Rightarrow> Inl e | Inr xs \<Rightarrow> Inr (x # xs)))"

text \<open>
  A model class as \<^verbatim>\<open>ransac\<close> inspects it: whether it has a \<^verbatim>\<open>from_estimate\<close> class
  method, a \<^verbatim>\<open>from_estimate\<close> attribute that is not a method, only the deprecated
  \<^verbatim>\<open>estimate\<close> instance method (which fills a default instance and returns a success
  flag), or none of them; its \<^verbatim>\<open>residuals\<close> method if it has one; and the attribute
  \<^verbatim>\<open>model\<close> of an instance, if it has one. The methods may raise.
\<close>

datatype ('d, 'm) estimator =
    ClassMethod "'d list list \<Rightarrow> error + 'm estimation"
  | NotClassMethod
  | EstimateOnly "'d list list \<Rightarrow> error + 'm \<times> bool"
  | NoEstimator

record ('d, 'm) model_class =
  cls_name :: string
  estimator :: "('d, 'm) estimator"
  residuals_attr :: "('m \<Rightarrow> 'd list list \<Rightarrow> error + real list) option"
  model_attr :: "'m \<Rightarrow> 'm option"

text \<open>\<^verbatim>\<open>add_from_estimate(cls)\<close>: the \<^verbatim>\<open>from_estimate\<close> to use, and the warnings emitted.\<close>

definition add_from_estimate ::
  "('d, 'm) model_class \<Rightarrow> error + ('d list list \<Rightarrow> error + 'm estimation) \<times> warning list" where
  "add_from_estimate cls =
     (case estimator cls of
        ClassMethod f \<Rightarrow> Inr (f, [])
      | NotClassMethod \<Rightarrow> Inl (TypeError ''from_estimate must be a class method.'')
      | NoEstimator \<Rightarrow>
          Inl (TypeError ''Class must have from_estimate class method or estimate method.'')
      | EstimateOnly estimate \<Rightarrow>
          Inr (\<lambda>args.
                (case estimate args of
                   Inl e \<Rightarrow> Inl e
                 | Inr (instance, success) \<Rightarrow>
                     Inr (if success then Fitted instance
                          else FailedEstimation (cls_name cls @ '' estimation failed''))),
               [FutureWarning
                  ''Passing custom classes without from_estimate has been deprecated.'']))"

text \<open>
  The arguments of \<^verbatim>\<open>ransac\<close>. The random generator is its state \<open>rng\<close> together with
  \<open>choice\<close>, where \<open>choice g n k\<close> is \<^verbatim>\<open>rng.choice(n, k, replace=False)\<close>: the indices
  drawn and the generator's next state. The two validity predicates are callables of the
  caller: like the methods of the model class they may raise, and \<^verbatim>\<open>ransac\<close> catches
  nothing. \<^verbatim>\<open>is_model_valid\<close> is called on whatever \<^verbatim>\<open>from_estimate\<close> returned, which at
  the end of \<^verbatim>\<open>ransac\<close> can be a \<^verbatim>\<open>FailedEstimation\<close>.
\<close>

record ('d, 'm, 'g) ransac_args =
  data :: "'d data_arg"
  model_class :: "('d, 'm) model_class"
  min_samples :: int
  residual_threshold :: real
  is_data_valid :: "('d list list \<Rightarrow> error + bool) option"
  is_model_valid :: "('m estimation \<Rightarrow> 'd list list \<Rightarrow> error + bool) option"
  max_trials :: int
  stop_sample_num :: bound
  stop_residuals_sum :: real
  stop_probability :: real
  rng :: 'g
  choice :: "'g \<Rightarrow> nat \<Rightarrow> nat \<Rightarrow> nat list \<times> 'g"
  initial_inliers :: "bool list option"

text \<open>
  The variables that the loop of \<^verbatim>\<open>ransac\<close> updates. \<open>max_trials_cur\<close> is the variable
  \<^verbatim>\<open>max_trials\<close>, which the loop reassigns: it starts as the integer argument and stays
  finite, since it is only ever replaced by \<^verbatim>\<open>min(max_trials, ...)\<close>.
\<close>

record 'g loop_state =
  best_inlier_num :: nat
  best_inlier_residuals_sum :: bound
  best_inliers :: "bool list"
  spl_idxs :: sel
  rng_state :: 'g
  num_trials :: nat
  max_trials_cur :: real

text \<open>Python's \<^verbatim>\<open>min(a, b)\<close> is \<^verbatim>\<open>b if b < a else a\<close>; here \<open>a\<close> is finite.\<close>

fun py_min :: "real \<Rightarrow> bound \<Rightarrow> real" where
  "py_min a (Fin b) = (if b < a then b else a)"
| "py_min a PosInf = a"

datatype 's outcome = Continue 's | Break 's

section \<open>The consensus engine: one trial\<close>

text \<open>
  The second half of the loop body, from the residuals \<open>res\<close> that \<^verbatim>\<open>model.residuals(*data)\<close>
  returned: the absolute residuals, the inliers, the comparison with the best trial so
  far, the update of the best-so-far variables and of \<^verbatim>\<open>max_trials\<close>, and the two stop
  criteria. \<open>Continue\<close> is the end of the body, \<open>Break\<close> is the \<^verbatim>\<open>break\<close>.
\<close>

definition score ::
  "('d, 'm, 'g) ransac_args \<Rightarrow> nat \<Rightarrow> 'g loop_state \<Rightarrow> real list \<Rightarrow>
   error + 'g loop_state outcome" where
  "score args num_samples s res =
     (let residuals = map abs res;
          inliers = map (\<lambda>r. r < residual_threshold args) residuals;
          residuals_sum = sum_list (map (\<lambda>r. r * r) residuals);
          inliers_count = length (filter (\<lambda>b. b) inliers)
      in
      if inliers_count > best_inlier_num s
         \<or> (inliers_count = best_inlier_num s
             \<and> bound_less (Fin residuals_sum) (best_inlier_residuals_sum s))
      then
        case dynamic_max_trials inliers_count num_samples
               (nat (min_samples args)) (stop_probability args) of
          Inl e \<Rightarrow> Inl e
        | Inr t \<Rightarrow>
           (let s = s\<lparr>best_inlier_num := inliers_count,
                      best_inlier_residuals_sum := Fin residuals_sum,
                      best_inliers := inliers,
                      max_trials_cur := py_min (max_trials_cur s) t\<rparr>
            in
            if bound_le (stop_sample_num args) (Fin (real (best_inlier_num s)))
               \<or> bound_le (best_inlier_residuals_sum s) (Fin (stop_residuals_sum args))
            then Inr (Break s)
            else Inr (Continue s))
      else Inr (Continue s))"

text \<open>
  The body of the \<^verbatim>\<open>while\<close> loop, run in a state with \<^verbatim>\<open>num_trials < max_trials\<close>; a
  \<^verbatim>\<open>continue\<close> is \<open>Continue\<close> too. \<open>ds\<close> is the tuple of data arrays and \<open>num_samples\<close>
  its common length; \<open>from_estimate\<close> and \<open>residuals\<close> are the methods of the model class.
\<close>

definition trial ::
  "('d, 'm, 'g) ransac_args \<Rightarrow> 'd list list \<Rightarrow> nat \<Rightarrow>
   ('d list list \<Rightarrow> error + 'm estimation) \<Rightarrow> ('m \<Rightarrow> 'd list list \<Rightarrow> error + real list) \<Rightarrow>
   'g loop_state \<Rightarrow> error + 'g loop_state outcome" where
  "trial args ds num_samples from_estimate residuals s =
     (let s = s\<lparr>num_trials := num_trials s + 1\<rparr> in
      case gather ds (spl_idxs s) of
        Inl e \<Rightarrow> Inl e
      | Inr samples \<Rightarrow>
         (let (js, g) = choice args (rng_state s) num_samples (nat (min_samples args));
              s = s\<lparr>spl_idxs := Idxs js, rng_state := g\<rparr>
          in
          case (case is_data_valid args of Some valid \<Rightarrow> valid samples | None \<Rightarrow> Inr True) of
            Inl e \<Rightarrow> Inl e
          | Inr data_ok \<Rightarrow>
             if \<not> data_ok then Inr (Continue s)
             else
               case from_estimate samples of
                 Inl e \<Rightarrow> Inl e
               | Inr (FailedEstimation msg) \<Rightarrow> Inr (Continue s)
               | Inr (Fitted model) \<Rightarrow>
                  (case (case is_model_valid args of
                           Some valid \<Rightarrow> valid (Fitted model) samples | None \<Rightarrow> Inr True) of
                     Inl e \<Rightarrow> Inl e
                   | Inr model_ok \<Rightarrow>
                      if \<not> model_ok then Inr (Continue s)
                      else
                        case residuals model ds of
                          Inl e \<Rightarrow> Inl e
                        | Inr res \<Rightarrow> score args num_samples s res)))"

section \<open>The consensus engine: the loop and \<^verbatim>\<open>ransac\<close>\<close>

fun outcome_state :: "'s outcome \<Rightarrow> 's" where
  "outcome_state (Continue s) = s"
| "outcome_state (Break s) = s"

lemma py_min_le: "py_min a b \<le> a"
  by (cases b) simp_all

lemma trial_step:
  assumes "trial args ds n from_estimate residuals s = Inr oc"
  shows "num_trials (outcome_state oc) = num_trials s + 1
         \<and> max_trials_cur (outcome_state oc) \<le> max_trials_cur s"
  using assms py_min_le
  by (auto simp: trial_def score_def Let_def
           split: sum.splits prod.splits if_splits estimation.splits)

text \<open>
  \<^verbatim>\<open>while num_trials < max_trials: ...\<close>. The loop ends because every trial counts
  \<^verbatim>\<open>num_trials\<close> up and never raises \<^verbatim>\<open>max_trials\<close>.
\<close>

function ransac_loop ::
  "('d, 'm, 'g) ransac_args \<Rightarrow> 'd list list \<Rightarrow> nat \<Rightarrow>
   ('d list list \<Rightarrow> error + 'm estimation) \<Rightarrow> ('m \<Rightarrow> 'd list list \<Rightarrow> error + real list) \<Rightarrow>
   'g loop_state \<Rightarrow> error + 'g loop_state" where
  "ransac_loop args ds n from_estimate residuals s =
     (if real (num_trials s) < max_trials_cur s
      then (case trial args ds n from_estimate residuals s of
              Inl e \<Rightarrow> Inl e
            | Inr (Break s') \<Rightarrow> Inr s'
            | Inr (Continue s') \<Rightarrow> ransac_loop args ds n from_estimate residuals s')
      else Inr s)"
  by pat_completeness auto
termination
proof (relation "measure (\<lambda>(args, ds, n, from_estimate, residuals, s).
                            nat \<lceil>max_trials_cur s\<rceil> - num_trials s)", goal_cases)
  case 1
  show ?case by simp
next
  case (2 args ds n from_estimate residuals s oc s')
  from trial_step[OF 2(2)] 2(3)
  have n: "num_trials s' = num_trials s + 1" and m: "max_trials_cur s' \<le> max_trials_cur s"
    by simp_all
  from 2(1) have "int (num_trials s) < \<lceil>max_trials_cur s\<rceil>"
    by (simp add: less_ceiling_iff)
  moreover from m have "\<lceil>max_trials_cur s'\<rceil> \<le> \<lceil>max_trials_cur s\<rceil>"
    by (rule ceiling_mono)
  ultimately show ?case using n by simp
qed

text \<open>The argument checks of \<^verbatim>\<open>ransac\<close>, in the order of the source.\<close>

definition check_args :: "('d, 'm, 'g) ransac_args \<Rightarrow> nat \<Rightarrow> error + unit" where
  "check_args args num_samples =
     (if \<not> (0 < min_samples args \<and> min_samples args \<le> int num_samples)
      then Inl (ValueError ''min_samples must be in range (0, num_samples]'')
      else if residual_threshold args < 0
      then Inl (ValueError ''residual_threshold must be greater than zero'')
      else if max_trials args < 0
      then Inl (ValueError ''max_trials must be greater than zero'')
      else if \<not> (0 \<le> stop_probability args \<and> stop_probability args \<le> 1)
      then Inl (ValueError ''stop_probability must be in range [0, 1]'')
      else if (case initial_inliers args of
                 Some init \<Rightarrow> length init \<noteq> num_samples | None \<Rightarrow> False)
      then Inl (ValueError
                 ''RANSAC received a vector of initial inliers that did not match the number of samples'')
      else Inr ())"

text \<open>
  The state in which the loop starts: no inliers, an infinite best residual sum, an
  empty inlier mask, and the first sample selection, which is \<^verbatim>\<open>initial_inliers\<close>
  when given and a random draw otherwise.
\<close>

definition first_state :: "('d, 'm, 'g) ransac_args \<Rightarrow> nat \<Rightarrow> 'g loop_state" where
  "first_state args num_samples =
     (let (idxs, g) =
            (case initial_inliers args of
               Some init \<Rightarrow> (Mask init, rng args)
             | None \<Rightarrow>
                 (let (js, g) = choice args (rng args) num_samples (nat (min_samples args))
                  in (Idxs js, g)))
      in \<lparr>best_inlier_num = 0,
          best_inlier_residuals_sum = PosInf,
          best_inliers = [],
          spl_idxs = idxs,
          rng_state = g,
          num_trials = 0,
          max_trials_cur = real_of_int (max_trials args)\<rparr>)"

text \<open>
  \<^verbatim>\<open>getattr(model, 'model', model)\<close>. On a fitted model it is the attribute \<^verbatim>\<open>model\<close> if
  the instance has one, and the model itself otherwise. On a \<^verbatim>\<open>FailedEstimation\<close>, whose
  class is not among the sources, every attribute access raises its access error, and
  \<^verbatim>\<open>getattr\<close> falls back to the default exactly when that error is an
  \<^verbatim>\<open>AttributeError\<close>: this is the parameter \<open>access_error_is_AttributeError\<close>.
\<close>

fun getattr_model :: "bool \<Rightarrow> ('m \<Rightarrow> 'm option) \<Rightarrow> 'm estimation \<Rightarrow> error + 'm estimation" where
  "getattr_model access_error_is_AttributeError attr (Fitted m) =
     Inr (Fitted (case attr m of Some m' \<Rightarrow> m' | None \<Rightarrow> m))"
| "getattr_model access_error_is_AttributeError attr (FailedEstimation msg) =
     (if access_error_is_AttributeError then Inr (FailedEstimation msg)
      else Inl (FailedEstimationAccessError ''FailedEstimation has no attribute model''))"

text \<open>
  The end of \<^verbatim>\<open>ransac\<close>: the final model is estimated from all inliers of the best trial.
  \<^verbatim>\<open>is_model_valid\<close> is called on the result without the test \<^verbatim>\<open>if not model\<close> that
  precedes it in the loop.
\<close>

definition final ::
  "bool \<Rightarrow> ('d, 'm, 'g) ransac_args \<Rightarrow> 'd list list \<Rightarrow>
   ('d list list \<Rightarrow> error + 'm estimation) \<Rightarrow> 'g loop_state \<Rightarrow>
   error + ('m estimation option \<times> bool list option) \<times> warning list" where
  "final access_error_is_AttributeError args ds from_estimate s =
     (if list_ex (\<lambda>b. b) (best_inliers s)
      then
        case gather ds (Mask (best_inliers s)) of
          Inl e \<Rightarrow> Inl e
        | Inr data_inliers \<Rightarrow>
           (case from_estimate data_inliers of
              Inl e \<Rightarrow> Inl e
            | Inr model \<Rightarrow>
               (case (case is_model_valid args of
                        Some valid \<Rightarrow> valid model data_inliers | None \<Rightarrow> Inr True) of
                  Inl e \<Rightarrow> Inl e
                | Inr model_ok \<Rightarrow>
                   (let ws = (if \<not> model_ok
                              then [UserWarning
                                      ''Estimated model is not valid. Try increasing max_trials.'']
                              else [])
                    in case getattr_model access_error_is_AttributeError
                              (model_attr (model_class args)) model of
                         Inl e \<Rightarrow> Inl e
                       | Inr m \<Rightarrow> Inr ((Some m, Some (best_inliers s)), ws))))
      else Inr ((None, None), [UserWarning ''No inliers found. Model not fitted'']))"

text \<open>\<^verbatim>\<open>if not isinstance(data, (tuple, list)): data = (data,)\<close>\<close>

fun data_arrays :: "'d data_arg \<Rightarrow> 'd list list" where
  "data_arrays (Single d) = [d]"
| "data_arrays (Sequence ds) = ds"

text \<open>
  \<^verbatim>\<open>ransac\<close>: the data as a tuple of arrays, \<^verbatim>\<open>num_samples = len(data[0])\<close>, the argument
  checks, the first sample selection, the model class's methods, the loop, the final
  estimation. The result is the pair returned and the warnings emitted.
\<close>

definition ransac ::
  "bool \<Rightarrow> ('d, 'm, 'g) ransac_args \<Rightarrow>
   error + ('m estimation option \<times> bool list option) \<times> warning list" where
  "ransac access_error_is_AttributeError args =
     (case data_arrays (data args) of
        [] \<Rightarrow> Inl IndexError
      | d0 # rest \<Rightarrow>
         (let ds = d0 # rest; num_samples = length d0 in
          case check_args args num_samples of
            Inl e \<Rightarrow> Inl e
          | Inr _ \<Rightarrow>
             (let s0 = first_state args num_samples in
              case add_from_estimate (model_class args) of
                Inl e \<Rightarrow> Inl e
              | Inr (from_estimate, ws) \<Rightarrow>
                 (case residuals_attr (model_class args) of
                    None \<Rightarrow> Inl (TypeError ''model_class should be of (protocol) type RansacModelProtocol'')
                  | Some residuals \<Rightarrow>
                     (case ransac_loop args ds num_samples from_estimate residuals s0 of
                        Inl e \<Rightarrow> Inl e
                      | Inr s \<Rightarrow>
                         (case final access_error_is_AttributeError args ds from_estimate s of
                            Inl e \<Rightarrow> Inl e
                          | Inr (result, ws') \<Rightarrow> Inr (result, ws @ ws')))))))"

section \<open>A small model class and a scripted generator\<close>

text \<open>
  Concrete inputs for \<^verbatim>\<open>ransac\<close>. \<open>MeanModel\<close> is a class with the two methods of
  \<^verbatim>\<open>RansacModelProtocol\<close>: it fits a single number, the mean of one array of numbers,
  and refuses an empty array and an array of more than \<open>limit\<close> numbers; the residual of
  a sample is its signed distance to that mean. \<open>scripted_choice\<close> is a generator that
  returns index arrays from a prepared list.
\<close>

fun mean_from_estimate :: "nat \<Rightarrow> real list list \<Rightarrow> error + real estimation" where
  "mean_from_estimate limit [xs] =
     (if xs = [] \<or> limit < length xs then Inr (FailedEstimation ''MeanModel: no estimate'')
      else Inr (Fitted (sum_list xs / real (length xs))))"
| "mean_from_estimate limit args = Inl (TypeError ''from_estimate takes one array'')"

fun mean_residuals :: "real \<Rightarrow> real list list \<Rightarrow> error + real list" where
  "mean_residuals c [xs] = Inr (map (\<lambda>x. x - c) xs)"
| "mean_residuals c args = Inl (TypeError ''residuals takes one array'')"

definition MeanModel :: "nat \<Rightarrow> (real, real) model_class" where
  "MeanModel limit =
     \<lparr>cls_name = ''MeanModel'',
      estimator = ClassMethod (mean_from_estimate limit),
      residuals_attr = Some mean_residuals,
      model_attr = (\<lambda>m. None)\<rparr>"

fun scripted_choice :: "nat list list \<Rightarrow> nat \<Rightarrow> nat \<Rightarrow> nat list \<times> nat list list" where
  "scripted_choice [] n k = ([0..<k], [])"
| "scripted_choice (js # g) n k = (js, g)"

text \<open>
  \<^verbatim>\<open>ransac(xs, MeanModel, 1, threshold, max_trials=trials, stop_probability=p, rng=...)\<close>,
  the other arguments at their defaults.
\<close>

definition example_args ::
  "real list \<Rightarrow> nat \<Rightarrow> real \<Rightarrow> int \<Rightarrow> real \<Rightarrow> nat list list \<Rightarrow>
   (real, real, nat list list) ransac_args" where
  "example_args xs limit threshold trials p script =
     \<lparr>data = Single xs,
      model_class = MeanModel limit,
      min_samples = 1,
      residual_threshold = threshold,
      is_data_valid = None,
      is_model_valid = None,
      max_trials = trials,
      stop_sample_num = PosInf,
      stop_residuals_sum = 0,
      stop_probability = p,
      rng = script,
      choice = scripted_choice,
      initial_inliers = None\<rparr>"




section \<open>The estimators: arrays and numpy arithmetic\<close>

























section \<open>The estimators\<close>














section \<open>The consensus engine on a store of arrays\<close>

text \<open>
  The same \<^verbatim>\<open>ransac\<close>, with the arrays held in a store so that writes to them can be
  followed: a store is the list of the arrays allocated so far, and a reference to an
  array is its position in the store. The methods of the model class and the validity
  predicates receive references, may write to the store and return it. A data argument
  is a reference or a sequence of references.
\<close>

type_synonym 'd store = "'d list list"

datatype data_ref = SingleRef nat | SequenceRef "nat list"

fun data_refs :: "data_ref \<Rightarrow> nat list" where
  "data_refs (SingleRef a) = [a]"
| "data_refs (SequenceRef as) = as"

text \<open>
  \<^verbatim>\<open>[d[idx] for d in data]\<close>: advanced indexing allocates a new array for every data
  array, and the result is the list of the new references.
\<close>

fun gather_st :: "'d store \<Rightarrow> nat list \<Rightarrow> sel \<Rightarrow> (error + nat list) \<times> 'd store" where
  "gather_st st [] idx = (Inr [], st)"
| "gather_st st (a # as) idx =
     (case fancy_index (st ! a) idx of
        Inl e \<Rightarrow> (Inl e, st)
      | Inr x \<Rightarrow>
         (case gather_st (st @ [x]) as idx of
            (Inl e, st') \<Rightarrow> (Inl e, st')
          | (Inr bs, st') \<Rightarrow> (Inr (length st # bs), st')))"

text \<open>
  The methods of a model class that has \<^verbatim>\<open>from_estimate\<close> and \<^verbatim>\<open>residuals\<close>, and the two
  optional predicates, on references.
\<close>

record ('d, 'm) methods_st =
  from_estimate_st :: "'d store \<Rightarrow> nat list \<Rightarrow> (error + 'm estimation) \<times> 'd store"
  residuals_st :: "'m \<Rightarrow> 'd store \<Rightarrow> nat list \<Rightarrow> (error + real list) \<times> 'd store"
  is_data_valid_st :: "('d store \<Rightarrow> nat list \<Rightarrow> (error + bool) \<times> 'd store) option"
  is_model_valid_st ::
    "('m estimation \<Rightarrow> 'd store \<Rightarrow> nat list \<Rightarrow> (error + bool) \<times> 'd store) option"
  model_attr_st :: "'m \<Rightarrow> 'm option"

text \<open>The loop body: the samples are new arrays, the residuals are taken on the data.\<close>

definition trial_st ::
  "('d, 'm, 'g) ransac_args \<Rightarrow> ('d, 'm) methods_st \<Rightarrow> nat list \<Rightarrow> nat \<Rightarrow>
   'g loop_state \<Rightarrow> 'd store \<Rightarrow> (error + 'g loop_state outcome) \<times> 'd store" where
  "trial_st args ms refs num_samples s st =
     (let s = s\<lparr>num_trials := num_trials s + 1\<rparr> in
      case gather_st st refs (spl_idxs s) of
        (Inl e, st) \<Rightarrow> (Inl e, st)
      | (Inr samples, st) \<Rightarrow>
         (let (js, g) = choice args (rng_state s) num_samples (nat (min_samples args));
              s = s\<lparr>spl_idxs := Idxs js, rng_state := g\<rparr>
          in
          case (case is_data_valid_st ms of
                  Some valid \<Rightarrow> valid st samples | None \<Rightarrow> (Inr True, st)) of
            (Inl e, st) \<Rightarrow> (Inl e, st)
          | (Inr data_ok, st) \<Rightarrow>
             if \<not> data_ok then (Inr (Continue s), st)
             else
               case from_estimate_st ms st samples of
                 (Inl e, st) \<Rightarrow> (Inl e, st)
               | (Inr (FailedEstimation msg), st) \<Rightarrow> (Inr (Continue s), st)
               | (Inr (Fitted model), st) \<Rightarrow>
                  (case (case is_model_valid_st ms of
                           Some valid \<Rightarrow> valid (Fitted model) st samples
                         | None \<Rightarrow> (Inr True, st)) of
                     (Inl e, st) \<Rightarrow> (Inl e, st)
                   | (Inr model_ok, st) \<Rightarrow>
                      if \<not> model_ok then (Inr (Continue s), st)
                      else
                        case residuals_st ms model st refs of
                          (Inl e, st) \<Rightarrow> (Inl e, st)
                        | (Inr res, st) \<Rightarrow> (score args num_samples s res, st))))"

lemma score_step:
  assumes "score args n s res = Inr oc"
  shows "num_trials (outcome_state oc) = num_trials s
         \<and> max_trials_cur (outcome_state oc) \<le> max_trials_cur s"
  using assms py_min_le
  by (auto simp: score_def Let_def split: sum.splits if_splits)

lemma trial_st_step:
  assumes "trial_st args ms refs n s st = (Inr oc, st')"
  shows "num_trials (outcome_state oc) = num_trials s + 1
         \<and> max_trials_cur (outcome_state oc) \<le> max_trials_cur s"
  using assms
  by (auto simp: trial_st_def Let_def dest!: score_step
           split: sum.splits prod.splits if_splits estimation.splits)

function loop_st ::
  "('d, 'm, 'g) ransac_args \<Rightarrow> ('d, 'm) methods_st \<Rightarrow> nat list \<Rightarrow> nat \<Rightarrow>
   'g loop_state \<Rightarrow> 'd store \<Rightarrow> (error + 'g loop_state) \<times> 'd store" where
  "loop_st args ms refs n s st =
     (if real (num_trials s) < max_trials_cur s
      then (case trial_st args ms refs n s st of
              (Inl e, st') \<Rightarrow> (Inl e, st')
            | (Inr (Break s'), st') \<Rightarrow> (Inr s', st')
            | (Inr (Continue s'), st') \<Rightarrow> loop_st args ms refs n s' st')
      else (Inr s, st))"
  by pat_completeness auto
termination
proof (relation "measure (\<lambda>(args, ms, refs, n, s, st).
                            nat \<lceil>max_trials_cur s\<rceil> - num_trials s)", goal_cases)
  case 1
  show ?case by simp
next
  case (2 args ms refs n s st r st' oc s')
  then have "trial_st args ms refs n s st = (Inr (Continue s'), st')"
    by simp
  from trial_st_step[OF this]
  have n: "num_trials s' = num_trials s + 1" and m: "max_trials_cur s' \<le> max_trials_cur s"
    by simp_all
  from 2(1) have "int (num_trials s) < \<lceil>max_trials_cur s\<rceil>"
    by (simp add: less_ceiling_iff)
  moreover from m have "\<lceil>max_trials_cur s'\<rceil> \<le> \<lceil>max_trials_cur s\<rceil>"
    by (rule ceiling_mono)
  ultimately show ?case using n by simp
qed


text \<open>The end of \<^verbatim>\<open>ransac\<close>: the inliers of every data array are new arrays too.\<close>

definition final_st ::
  "bool \<Rightarrow> ('d, 'm, 'g) ransac_args \<Rightarrow> ('d, 'm) methods_st \<Rightarrow> nat list \<Rightarrow>
   'g loop_state \<Rightarrow> 'd store \<Rightarrow>
   (error + ('m estimation option \<times> bool list option) \<times> warning list) \<times> 'd store" where
  "final_st access_error_is_AttributeError args ms refs s st =
     (if list_ex (\<lambda>b. b) (best_inliers s)
      then
        case gather_st st refs (Mask (best_inliers s)) of
          (Inl e, st) \<Rightarrow> (Inl e, st)
        | (Inr data_inliers, st) \<Rightarrow>
           (case from_estimate_st ms st data_inliers of
              (Inl e, st) \<Rightarrow> (Inl e, st)
            | (Inr model, st) \<Rightarrow>
               (case (case is_model_valid_st ms of
                        Some valid \<Rightarrow> valid model st data_inliers
                      | None \<Rightarrow> (Inr True, st)) of
                  (Inl e, st) \<Rightarrow> (Inl e, st)
                | (Inr model_ok, st) \<Rightarrow>
                   (let ws = (if \<not> model_ok
                              then [UserWarning
                                      ''Estimated model is not valid. Try increasing max_trials.'']
                              else [])
                    in case getattr_model access_error_is_AttributeError (model_attr_st ms)
                              model of
                         Inl e \<Rightarrow> (Inl e, st)
                       | Inr m \<Rightarrow> (Inr ((Some m, Some (best_inliers s)), ws), st))))
      else (Inr ((None, None), [UserWarning ''No inliers found. Model not fitted'']), st))"

text \<open>
  \<^verbatim>\<open>ransac\<close> on the store. The scalar arguments, \<^verbatim>\<open>initial_inliers\<close> and the generator
  are those of \<open>args\<close>; the data and the methods are given as references and as methods
  on references.
\<close>

definition ransac_st ::
  "bool \<Rightarrow> ('d, 'm, 'g) ransac_args \<Rightarrow> ('d, 'm) methods_st \<Rightarrow> data_ref \<Rightarrow> 'd store \<Rightarrow>
   (error + ('m estimation option \<times> bool list option) \<times> warning list) \<times> 'd store" where
  "ransac_st access_error_is_AttributeError args ms dref st =
     (case data_refs dref of
        [] \<Rightarrow> (Inl IndexError, st)
      | a0 # rest \<Rightarrow>
         (let refs = a0 # rest; num_samples = length (st ! a0) in
          case check_args args num_samples of
            Inl e \<Rightarrow> (Inl e, st)
          | Inr _ \<Rightarrow>
             (case loop_st args ms refs num_samples (first_state args num_samples) st of
                (Inl e, st) \<Rightarrow> (Inl e, st)
              | (Inr s, st) \<Rightarrow> final_st access_error_is_AttributeError args ms refs s st)))"

text \<open>
  \<open>extends st st'\<close>: every array of \<open>st\<close> is in \<open>st'\<close> at the same place with the same
  contents. A method writes only to its arguments when it leaves alone every other
  array that existed before the call, and reads only when it leaves alone all of them.
  A class is well behaved when \<^verbatim>\<open>residuals\<close> reads only and \<^verbatim>\<open>from_estimate\<close> and the
  predicates write only to their arguments.
\<close>

definition extends :: "'d store \<Rightarrow> 'd store \<Rightarrow> bool" where
  "extends st st' = (take (length st) st' = st)"

definition writes_only_args :: "('d store \<Rightarrow> nat list \<Rightarrow> 'r \<times> 'd store) \<Rightarrow> bool" where
  "writes_only_args f =
     (\<forall>st as. length st \<le> length (snd (f st as)) \<and>
              (\<forall>a < length st. a \<notin> set as \<longrightarrow> snd (f st as) ! a = st ! a))"

definition reads_only :: "('d store \<Rightarrow> nat list \<Rightarrow> 'r \<times> 'd store) \<Rightarrow> bool" where
  "reads_only f = (\<forall>st as. extends st (snd (f st as)))"

definition well_behaved :: "('d, 'm) methods_st \<Rightarrow> bool" where
  "well_behaved ms =
     (writes_only_args (from_estimate_st ms) \<and>
      (\<forall>m. reads_only (residuals_st ms m)) \<and>
      (\<forall>valid. is_data_valid_st ms = Some valid \<longrightarrow> writes_only_args valid) \<and>
      (\<forall>valid m. is_model_valid_st ms = Some valid \<longrightarrow> writes_only_args (valid m)))"

text \<open>
  Methods that do not write at all, from methods on values; the methods of a class that
  fits the mean like \<open>MeanModel\<close> but whose \<^verbatim>\<open>residuals\<close> subtracts the model from its
  argument in place and returns it; and the methods of a class whose \<^verbatim>\<open>from_estimate\<close>
  keeps a reference to the array at position 0 of the store and sets it to zero at every
  call, while its \<^verbatim>\<open>residuals\<close> writes nothing.
\<close>

definition pure_methods ::
  "('d list list \<Rightarrow> error + 'm estimation) \<Rightarrow> ('m \<Rightarrow> 'd list list \<Rightarrow> error + real list) \<Rightarrow>
   ('d list list \<Rightarrow> error + bool) option \<Rightarrow>
   ('m estimation \<Rightarrow> 'd list list \<Rightarrow> error + bool) option \<Rightarrow>
   ('m \<Rightarrow> 'm option) \<Rightarrow> ('d, 'm) methods_st" where
  "pure_methods from_estimate residuals data_valid model_valid attr =
     \<lparr>from_estimate_st = (\<lambda>st as. (from_estimate (map (\<lambda>a. st ! a) as), st)),
      residuals_st = (\<lambda>m st as. (residuals m (map (\<lambda>a. st ! a) as), st)),
      is_data_valid_st = map_option (\<lambda>valid st as. (valid (map (\<lambda>a. st ! a) as), st)) data_valid,
      is_model_valid_st =
        map_option (\<lambda>valid m st as. (valid m (map (\<lambda>a. st ! a) as), st)) model_valid,
      model_attr_st = attr\<rparr>"

definition in_place_methods :: "(real, real) methods_st" where
  "in_place_methods =
     \<lparr>from_estimate_st = (\<lambda>st as. (mean_from_estimate 10 (map (\<lambda>a. st ! a) as), st)),
      residuals_st =
        (\<lambda>c st as. case as of
                      [a] \<Rightarrow> (Inr (map (\<lambda>x. x - c) (st ! a)), st[a := map (\<lambda>x. x - c) (st ! a)])
                    | _ \<Rightarrow> (Inl (TypeError ''residuals takes one array''), st)),
      is_data_valid_st = None,
      is_model_valid_st = None,
      model_attr_st = (\<lambda>m. None)\<rparr>"

definition capturing_methods :: "(real, real) methods_st" where
  "capturing_methods =
     \<lparr>from_estimate_st =
        (\<lambda>st as. (mean_from_estimate 10 (map (\<lambda>a. st ! a) as),
                   st[0 := map (\<lambda>x. 0) (st ! 0)])),
      residuals_st = (\<lambda>c st as. (mean_residuals c (map (\<lambda>a. st ! a) as), st)),
      is_data_valid_st = None,
      is_model_valid_st = None,
      model_attr_st = (\<lambda>m. None)\<rparr>"

section \<open>Properties of the adaptive trial bound\<close>

lemma EPSILON_pos: "0 < EPSILON"
  by (simp add: EPSILON_def)

lemma EPSILON_lt_half: "EPSILON < 1 / 2"
  by (simp add: EPSILON_def)

lemma clip_range:
  "EPSILON \<le> clip x EPSILON (1 - EPSILON) \<and> clip x EPSILON (1 - EPSILON) \<le> 1 - EPSILON"
  using EPSILON_lt_half by (auto simp: clip_def min_def max_def)

lemma clip_mono: "x \<le> y \<Longrightarrow> clip x a b \<le> clip y a b"
  by (auto simp: clip_def min_def max_def)

lemma ln_clip_neg: "ln (clip x EPSILON (1 - EPSILON)) < 0"
proof -
  have "0 < clip x EPSILON (1 - EPSILON)" "clip x EPSILON (1 - EPSILON) < 1"
    using clip_range[of x] EPSILON_pos by linarith+
  then show ?thesis by simp
qed

lemma ln_clip_mono:
  assumes "x \<le> y"
  shows "ln (clip x EPSILON (1 - EPSILON)) \<le> ln (clip y EPSILON (1 - EPSILON))"
proof -
  have "clip x EPSILON (1 - EPSILON) \<le> clip y EPSILON (1 - EPSILON)"
    using assms by (rule clip_mono)
  moreover have "0 < clip x EPSILON (1 - EPSILON)"
    using clip_range[of x] EPSILON_pos by linarith
  ultimately show ?thesis by simp
qed

lemma log_ratio_pos:
  "0 < ln (clip x EPSILON (1 - EPSILON)) / ln (clip y EPSILON (1 - EPSILON))"
  using ln_clip_neg[of x] ln_clip_neg[of y] by (simp add: divide_neg_neg)

lemma log_ratio_antimono:
  assumes "y2 \<le> y1"
  shows "ln (clip x EPSILON (1 - EPSILON)) / ln (clip y2 EPSILON (1 - EPSILON))
       \<le> ln (clip x EPSILON (1 - EPSILON)) / ln (clip y1 EPSILON (1 - EPSILON))"
proof -
  let ?n = "ln (clip x EPSILON (1 - EPSILON))"
  let ?d1 = "ln (clip y1 EPSILON (1 - EPSILON))"
  let ?d2 = "ln (clip y2 EPSILON (1 - EPSILON))"
  have n: "?n < 0" and d1: "?d1 < 0" and d2: "?d2 < 0"
    by (rule ln_clip_neg)+
  have le: "?d2 \<le> ?d1"
    using assms by (rule ln_clip_mono)
  show ?thesis
    using n d1 d2 le by (simp add: divide_left_mono_neg mult_neg_neg)
qed

lemma dynamic_max_trials_general:
  assumes "p \<noteq> 0" and "k \<noteq> 0" and "N \<noteq> 0"
  shows "dynamic_max_trials k N m p =
           Inr (Fin (of_int \<lceil>ln (clip (1 - p) EPSILON (1 - EPSILON)) /
                             ln (clip (1 - (real k / real N) ^ m) EPSILON (1 - EPSILON))\<rceil>))"
  using assms by (simp add: dynamic_max_trials_def Let_def)

text \<open>
  Claim C4. For fixed \<open>n_samples\<close>, \<open>min_samples\<close> and \<open>probability\<close>, the trial bound is
  non-increasing in the inlier count: whenever the function returns for two inlier counts
  \<open>k1 \<le> k2\<close>, the bound for \<open>k2\<close> is not greater than the bound for \<open>k1\<close>; and with at
  least one sample it does return for both.
\<close>

theorem dynamic_max_trials_antimono:
  assumes "k1 \<le> k2"
  shows "(\<forall>t1 t2. dynamic_max_trials k1 N m p = Inr t1 \<longrightarrow>
                  dynamic_max_trials k2 N m p = Inr t2 \<longrightarrow> bound_le t2 t1) \<and>
         (0 < N \<longrightarrow> (\<exists>t1 t2. dynamic_max_trials k1 N m p = Inr t1 \<and>
                               dynamic_max_trials k2 N m p = Inr t2))"
proof (intro conjI allI impI)
  fix t1 t2
  assume r1: "dynamic_max_trials k1 N m p = Inr t1"
    and r2: "dynamic_max_trials k2 N m p = Inr t2"
  show "bound_le t2 t1"
  proof (cases "p = 0")
    case True
    with r1 r2 show ?thesis by (auto simp: dynamic_max_trials_def)
  next
    case p: False
    show ?thesis
    proof (cases "k1 = 0")
      case True
      with p r1 have "t1 = PosInf" by (simp add: dynamic_max_trials_def)
      then show ?thesis by (cases t2) simp_all
    next
      case k1: False
      with assms have k2: "k2 \<noteq> 0" by simp
      from p k2 r2 have N: "N \<noteq> 0"
        by (auto simp: dynamic_max_trials_def split: if_splits)
      have "real k1 / real N \<le> real k2 / real N"
        using assms by (simp add: divide_right_mono)
      then have "(real k1 / real N) ^ m \<le> (real k2 / real N) ^ m"
        by (simp add: power_mono)
      then have "1 - (real k2 / real N) ^ m \<le> 1 - (real k1 / real N) ^ m"
        by simp
      then have "ln (clip (1 - p) EPSILON (1 - EPSILON)) /
                   ln (clip (1 - (real k2 / real N) ^ m) EPSILON (1 - EPSILON))
               \<le> ln (clip (1 - p) EPSILON (1 - EPSILON)) /
                   ln (clip (1 - (real k1 / real N) ^ m) EPSILON (1 - EPSILON))"
        by (rule log_ratio_antimono)
      then have "\<lceil>ln (clip (1 - p) EPSILON (1 - EPSILON)) /
                   ln (clip (1 - (real k2 / real N) ^ m) EPSILON (1 - EPSILON))\<rceil>
               \<le> \<lceil>ln (clip (1 - p) EPSILON (1 - EPSILON)) /
                   ln (clip (1 - (real k1 / real N) ^ m) EPSILON (1 - EPSILON))\<rceil>"
        by (rule ceiling_mono)
      moreover from r1 have "t1 = Fin (of_int \<lceil>ln (clip (1 - p) EPSILON (1 - EPSILON)) /
                   ln (clip (1 - (real k1 / real N) ^ m) EPSILON (1 - EPSILON))\<rceil>)"
        using dynamic_max_trials_general[OF p k1 N, of m] by simp
      moreover from r2 have "t2 = Fin (of_int \<lceil>ln (clip (1 - p) EPSILON (1 - EPSILON)) /
                   ln (clip (1 - (real k2 / real N) ^ m) EPSILON (1 - EPSILON))\<rceil>)"
        using dynamic_max_trials_general[OF p k2 N, of m] by simp
      ultimately show ?thesis by simp
    qed
  qed
next
  assume "0 < N"
  then show "\<exists>t1 t2. dynamic_max_trials k1 N m p = Inr t1 \<and>
                     dynamic_max_trials k2 N m p = Inr t2"
    by (simp add: dynamic_max_trials_def Let_def)
qed

theorem dynamic_max_trials_antimono_witness:
  "(1::nat) \<le> 2 \<and>
   (\<exists>t1 t2. dynamic_max_trials 1 4 2 (99 / 100) = Inr t1 \<and>
            dynamic_max_trials 2 4 2 (99 / 100) = Inr t2 \<and> bound_le t2 t1)"
proof -
  have h: "(1::nat) \<le> 2" by simp
  show ?thesis
    using h dynamic_max_trials_antimono [OF h, of 4 2 "99 / 100"] by auto
qed




section \<open>Properties of a trial and of the loop\<close>






lemma trial_best_update:
  assumes "trial args ds n from_estimate residuals s = Inr oc"
  shows "(best_inlier_num (outcome_state oc) = best_inlier_num s \<and>
          best_inlier_residuals_sum (outcome_state oc) = best_inlier_residuals_sum s \<and>
          best_inliers (outcome_state oc) = best_inliers s \<and>
          max_trials_cur (outcome_state oc) = max_trials_cur s)
         \<or> ((best_inlier_num s < best_inlier_num (outcome_state oc)
              \<or> (best_inlier_num (outcome_state oc) = best_inlier_num s \<and>
                  bound_less (best_inlier_residuals_sum (outcome_state oc))
                    (best_inlier_residuals_sum s)))
            \<and> (\<exists>t. dynamic_max_trials (best_inlier_num (outcome_state oc)) n
                       (nat (min_samples args)) (stop_probability args) = Inr t \<and>
                     max_trials_cur (outcome_state oc) = py_min (max_trials_cur s) t))"
  using assms
  by (auto simp: trial_def score_def Let_def o_def
           split: sum.splits prod.splits if_splits estimation.splits)

lemma ransac_loop_max_trials:
  assumes "ransac_loop args ds n from_estimate residuals s = Inr s'"
  shows "max_trials_cur s' \<le> max_trials_cur s"
  using assms
proof (induction args ds n from_estimate residuals s rule: ransac_loop.induct)
  case (1 args ds n from_estimate residuals s)
  show ?case
  proof (cases "real (num_trials s) < max_trials_cur s")
    case False
    with "1.prems" show ?thesis by simp
  next
    case True
    show ?thesis
    proof (cases "trial args ds n from_estimate residuals s")
      case (Inl e)
      with True "1.prems" show ?thesis by simp
    next
      case (Inr oc)
      note step = trial_step[OF Inr]
      show ?thesis
      proof (cases oc)
        case (Break s1)
        with True Inr "1.prems" have "s' = s1" by simp
        with step Break show ?thesis by simp
      next
        case (Continue s1)
        with True Inr "1.prems"
        have "ransac_loop args ds n from_estimate residuals s1 = Inr s'" by simp
        then have "max_trials_cur s' \<le> max_trials_cur s1"
          using "1.IH"[OF True Inr Continue] by blast
        with step Continue show ?thesis by simp
      qed
    qed
  qed
qed

lemma clip_0: "clip 0 EPSILON (1 - EPSILON) = EPSILON"
  using EPSILON_pos EPSILON_lt_half by (simp add: clip_def min_def max_def)

lemma log_ratio_gt_1:
  assumes "EPSILON < y"
  shows "1 < ln (clip 0 EPSILON (1 - EPSILON)) / ln (clip y EPSILON (1 - EPSILON))"
proof -
  have "EPSILON < clip y EPSILON (1 - EPSILON)"
    using assms EPSILON_lt_half by (auto simp: clip_def min_def max_def)
  then have "ln EPSILON < ln (clip y EPSILON (1 - EPSILON))"
    using EPSILON_pos by simp
  moreover have "ln (clip y EPSILON (1 - EPSILON)) < 0"
    by (rule ln_clip_neg)
  ultimately show ?thesis
    by (simp add: clip_0 field_simps)
qed

lemma dynamic_max_trials_ge_2:
  assumes "0 < k" and "EPSILON < 1 - real k / real N" and "0 < N"
  shows "\<exists>t. dynamic_max_trials k N 1 1 = Inr (Fin t) \<and> \<not> t < 2"
proof -
  have "1 < ln (clip 0 EPSILON (1 - EPSILON)) / ln (clip (1 - real k / real N) EPSILON (1 - EPSILON))"
    using assms(2) by (rule log_ratio_gt_1)
  then have "2 \<le> \<lceil>ln (clip 0 EPSILON (1 - EPSILON)) / ln (clip (1 - real k / real N) EPSILON (1 - EPSILON))\<rceil>"
    by linarith
  then have "\<not> real_of_int \<lceil>ln (clip 0 EPSILON (1 - EPSILON)) / ln (clip (1 - real k / real N) EPSILON (1 - EPSILON))\<rceil> < 2"
    by linarith
  moreover have "dynamic_max_trials k N 1 1 = Inr (Fin (of_int \<lceil>ln (clip 0 EPSILON (1 - EPSILON)) / ln (clip (1 - real k / real N) EPSILON (1 - EPSILON))\<rceil>))"
    using assms by (simp add: dynamic_max_trials_general)
  ultimately show ?thesis by blast
qed

lemma check_args_ValueError:
  assumes "check_args args n = Inl e"
  shows "\<exists>msg. e = ValueError msg"
  using assms by (auto simp: check_args_def split: if_splits)

lemma check_args_cong:
  "check_args (args\<lparr>model_class := mc, is_data_valid := dv, is_model_valid := mv,
                    stop_sample_num := sn, stop_residuals_sum := sr, rng := g, choice := ch\<rparr>) n
   = check_args args n"
  by (simp add: check_args_def)

lemma ransac_check_fails:
  assumes "data_arrays (data args) = d0 # rest" and "check_args args (length d0) = Inl e"
  shows "ransac flag args = Inl e"
  using assms by (simp add: ransac_def Let_def)


section \<open>Three concrete runs\<close>

lemma dynamic_max_trials_ge_1:
  assumes "0 < k" and "0 < N" and "p \<noteq> 0"
  shows "\<exists>t. dynamic_max_trials k N m p = Inr (Fin t) \<and> \<not> t < 1"
proof -
  let ?r = "ln (clip (1 - p) EPSILON (1 - EPSILON)) /
            ln (clip (1 - (real k / real N) ^ m) EPSILON (1 - EPSILON))"
  have "0 < ?r"
    by (rule log_ratio_pos)
  then have "1 \<le> \<lceil>?r\<rceil>"
    by linarith
  then have "\<not> real_of_int \<lceil>?r\<rceil> < 1"
    by linarith
  moreover have "dynamic_max_trials k N m p = Inr (Fin (of_int \<lceil>?r\<rceil>))"
    using assms by (simp add: dynamic_max_trials_general)
  ultimately show ?thesis by blast
qed

lemma ransac_loop_Continue:
  assumes "real (num_trials s) < max_trials_cur s"
    and "trial args ds n from_estimate residuals s = Inr (Continue s')"
  shows "ransac_loop args ds n from_estimate residuals s
         = ransac_loop args ds n from_estimate residuals s'"
  using assms by (subst ransac_loop.simps) simp

lemma ransac_loop_exit:
  assumes "\<not> real (num_trials s) < max_trials_cur s"
  shows "ransac_loop args ds n from_estimate residuals s = Inr s"
  using assms by (subst ransac_loop.simps) simp

lemmas trial_defs = example_args_def first_state_def MeanModel_def trial_def score_def Let_def






text \<open>
  Two trials on the data -3, 0, 3, 4, 5 with threshold 1.5: the first samples the point
  0 (one inlier, squared residuals summing to 59), the second samples the point 4 (three
  inliers, squared residuals summing to 67).
\<close>

lemma example_two_trials:
  "trial (example_args [- 3, 0, 3, 4, 5] 10 (3 / 2) 2 1 [[1], [3], [0]]) [[- 3, 0, 3, 4, 5]] 5
     (mean_from_estimate 10) mean_residuals
     (first_state (example_args [- 3, 0, 3, 4, 5] 10 (3 / 2) 2 1 [[1], [3], [0]]) 5)
   = Inr (Continue \<lparr>best_inlier_num = 1, best_inlier_residuals_sum = Fin 59,
                     best_inliers = [False, True, False, False, False],
                     spl_idxs = Idxs [3], rng_state = [[0]], num_trials = 1,
                     max_trials_cur = 2\<rparr>)"
  "trial (example_args [- 3, 0, 3, 4, 5] 10 (3 / 2) 2 1 [[1], [3], [0]]) [[- 3, 0, 3, 4, 5]] 5
     (mean_from_estimate 10) mean_residuals
     \<lparr>best_inlier_num = 1, best_inlier_residuals_sum = Fin 59,
      best_inliers = [False, True, False, False, False],
      spl_idxs = Idxs [3], rng_state = [[0]], num_trials = 1, max_trials_cur = 2\<rparr>
   = Inr (Continue \<lparr>best_inlier_num = 3, best_inlier_residuals_sum = Fin 67,
                     best_inliers = [False, False, True, True, True],
                     spl_idxs = Idxs [0], rng_state = [], num_trials = 2,
                     max_trials_cur = 2\<rparr>)"
proof -
  have "EPSILON < 1 - real 1 / real 5" "EPSILON < 1 - real (Suc (Suc (Suc 0))) / real 5"
    by (simp_all add: EPSILON_def)
  then obtain t1 t3 where
    t1: "dynamic_max_trials 1 5 1 1 = Inr (Fin t1)" "\<not> t1 < 2" and
    t3: "dynamic_max_trials (Suc (Suc (Suc 0))) 5 1 1 = Inr (Fin t3)" "\<not> t3 < 2"
    using dynamic_max_trials_ge_2[of 1 5] dynamic_max_trials_ge_2[of "Suc (Suc (Suc 0))" 5]
    by auto
  show "trial (example_args [- 3, 0, 3, 4, 5] 10 (3 / 2) 2 1 [[1], [3], [0]]) [[- 3, 0, 3, 4, 5]] 5
     (mean_from_estimate 10) mean_residuals
     (first_state (example_args [- 3, 0, 3, 4, 5] 10 (3 / 2) 2 1 [[1], [3], [0]]) 5)
   = Inr (Continue \<lparr>best_inlier_num = 1, best_inlier_residuals_sum = Fin 59,
                     best_inliers = [False, True, False, False, False],
                     spl_idxs = Idxs [3], rng_state = [[0]], num_trials = 1,
                     max_trials_cur = 2\<rparr>)"
    using t1 by (simp add: trial_defs)
  show "trial (example_args [- 3, 0, 3, 4, 5] 10 (3 / 2) 2 1 [[1], [3], [0]]) [[- 3, 0, 3, 4, 5]] 5
     (mean_from_estimate 10) mean_residuals
     \<lparr>best_inlier_num = 1, best_inlier_residuals_sum = Fin 59,
      best_inliers = [False, True, False, False, False],
      spl_idxs = Idxs [3], rng_state = [[0]], num_trials = 1, max_trials_cur = 2\<rparr>
   = Inr (Continue \<lparr>best_inlier_num = 3, best_inlier_residuals_sum = Fin 67,
                     best_inliers = [False, False, True, True, True],
                     spl_idxs = Idxs [0], rng_state = [], num_trials = 2,
                     max_trials_cur = 2\<rparr>)"
    using t3 by (simp add: trial_defs)
qed

lemma example_two_trials_loop:
  "ransac_loop (example_args [- 3, 0, 3, 4, 5] 10 (3 / 2) 2 1 [[1], [3], [0]])
     [[- 3, 0, 3, 4, 5]] 5 (mean_from_estimate 10) mean_residuals
     (first_state (example_args [- 3, 0, 3, 4, 5] 10 (3 / 2) 2 1 [[1], [3], [0]]) 5)
   = Inr \<lparr>best_inlier_num = 3, best_inlier_residuals_sum = Fin 67,
          best_inliers = [False, False, True, True, True],
          spl_idxs = Idxs [0], rng_state = [], num_trials = 2, max_trials_cur = 2\<rparr>"
proof -
  let ?A = "example_args [- 3, 0, 3, 4, 5] 10 (3 / 2) 2 1 [[1], [3], [0]]"
  let ?S1 = "\<lparr>best_inlier_num = 1, best_inlier_residuals_sum = Fin 59,
              best_inliers = [False, True, False, False, False],
              spl_idxs = Idxs [3], rng_state = [[0]], num_trials = 1,
              max_trials_cur = 2\<rparr>"
  let ?S2 = "\<lparr>best_inlier_num = 3, best_inlier_residuals_sum = Fin 67,
              best_inliers = [False, False, True, True, True],
              spl_idxs = Idxs [0], rng_state = [], num_trials = 2,
              max_trials_cur = 2\<rparr>"
  have c0: "real (num_trials (first_state ?A 5)) < max_trials_cur (first_state ?A 5)"
    by (simp add: example_args_def first_state_def)
  have c1: "real (num_trials ?S1) < max_trials_cur ?S1"
    by simp
  have c2: "\<not> real (num_trials ?S2) < max_trials_cur ?S2"
    by simp
  show ?thesis
    by (simp only: ransac_loop_Continue[OF c0 example_two_trials(1)]
          ransac_loop_Continue[OF c1 example_two_trials(2)] ransac_loop_exit[OF c2])
qed

text \<open>
  The same data with \<^verbatim>\<open>stop_probability=0\<close>: the first improvement brings \<^verbatim>\<open>max_trials\<close>
  from 2 down to 0.
\<close>

lemma example_tightening_trial:
  "trial (example_args [- 3, 0, 3, 4, 5] 10 (3 / 2) 2 0 [[1], [3], [0]]) [[- 3, 0, 3, 4, 5]] 5
     (mean_from_estimate 10) mean_residuals
     (first_state (example_args [- 3, 0, 3, 4, 5] 10 (3 / 2) 2 0 [[1], [3], [0]]) 5)
   = Inr (Continue \<lparr>best_inlier_num = 1, best_inlier_residuals_sum = Fin 59,
                     best_inliers = [False, True, False, False, False],
                     spl_idxs = Idxs [3], rng_state = [[0]], num_trials = 1,
                     max_trials_cur = 0\<rparr>)"
  by (simp add: trial_defs dynamic_max_trials_def)

lemma example_tightening_loop:
  "ransac_loop (example_args [- 3, 0, 3, 4, 5] 10 (3 / 2) 2 0 [[1], [3], [0]])
     [[- 3, 0, 3, 4, 5]] 5 (mean_from_estimate 10) mean_residuals
     (first_state (example_args [- 3, 0, 3, 4, 5] 10 (3 / 2) 2 0 [[1], [3], [0]]) 5)
   = Inr \<lparr>best_inlier_num = 1, best_inlier_residuals_sum = Fin 59,
          best_inliers = [False, True, False, False, False],
          spl_idxs = Idxs [3], rng_state = [[0]], num_trials = 1, max_trials_cur = 0\<rparr>"
proof -
  let ?A = "example_args [- 3, 0, 3, 4, 5] 10 (3 / 2) 2 0 [[1], [3], [0]]"
  let ?S1 = "\<lparr>best_inlier_num = 1, best_inlier_residuals_sum = Fin 59,
              best_inliers = [False, True, False, False, False],
              spl_idxs = Idxs [3], rng_state = [[0]], num_trials = 1,
              max_trials_cur = 0\<rparr>"
  have c0: "real (num_trials (first_state ?A 5)) < max_trials_cur (first_state ?A 5)"
    by (simp add: example_args_def first_state_def)
  have c1: "\<not> real (num_trials ?S1) < max_trials_cur ?S1"
    by simp
  show ?thesis
    by (simp only: ransac_loop_Continue[OF c0 example_tightening_trial] ransac_loop_exit[OF c1])
qed


section \<open>Claims about the consensus engine\<close>





text \<open>
  Claim C3, as amended. A trial that changes the best-so-far state either strictly
  increases the best inlier count, or keeps the count and strictly decreases the best
  sum of squared residuals. (With a larger inlier count the sum may grow.)
\<close>

theorem trial_improves_lexicographically:
  assumes "trial args ds n from_estimate residuals s = Inr oc"
  shows "(best_inlier_num (outcome_state oc) = best_inlier_num s \<and>
          best_inlier_residuals_sum (outcome_state oc) = best_inlier_residuals_sum s \<and>
          best_inliers (outcome_state oc) = best_inliers s)
         \<or> best_inlier_num s < best_inlier_num (outcome_state oc)
         \<or> (best_inlier_num (outcome_state oc) = best_inlier_num s \<and>
             bound_less (best_inlier_residuals_sum (outcome_state oc))
               (best_inlier_residuals_sum s))"
  using trial_best_update[OF assms] by blast

theorem trial_improves_lexicographically_witness:
  "trial (example_args [- 3, 0, 3, 4, 5] 10 (3 / 2) 2 1 [[1], [3], [0]]) [[- 3, 0, 3, 4, 5]] 5
     (mean_from_estimate 10) mean_residuals
     \<lparr>best_inlier_num = 1, best_inlier_residuals_sum = Fin 59,
      best_inliers = [False, True, False, False, False],
      spl_idxs = Idxs [3], rng_state = [[0]], num_trials = 1, max_trials_cur = 2\<rparr>
   = Inr (Continue \<lparr>best_inlier_num = 3, best_inlier_residuals_sum = Fin 67,
                     best_inliers = [False, False, True, True, True],
                     spl_idxs = Idxs [0], rng_state = [], num_trials = 2,
                     max_trials_cur = 2\<rparr>)
   \<and> (1::nat) < 3"
  using example_two_trials(2) trial_improves_lexicographically [OF example_two_trials(2)]
  by simp

text \<open>
  Claim C3 as stated fails: in the run on -3, 0, 3, 4, 5 the first trial records the
  best sum 59 and the second trial, which has more inliers, replaces it by 67.
\<close>

theorem best_residuals_sum_counterexample:
  "trial (example_args [- 3, 0, 3, 4, 5] 10 (3 / 2) 2 1 [[1], [3], [0]]) [[- 3, 0, 3, 4, 5]] 5
     (mean_from_estimate 10) mean_residuals
     (first_state (example_args [- 3, 0, 3, 4, 5] 10 (3 / 2) 2 1 [[1], [3], [0]]) 5)
   = Inr (Continue \<lparr>best_inlier_num = 1, best_inlier_residuals_sum = Fin 59,
                     best_inliers = [False, True, False, False, False],
                     spl_idxs = Idxs [3], rng_state = [[0]], num_trials = 1,
                     max_trials_cur = 2\<rparr>)
   \<and> trial (example_args [- 3, 0, 3, 4, 5] 10 (3 / 2) 2 1 [[1], [3], [0]]) [[- 3, 0, 3, 4, 5]] 5
     (mean_from_estimate 10) mean_residuals
     \<lparr>best_inlier_num = 1, best_inlier_residuals_sum = Fin 59,
      best_inliers = [False, True, False, False, False],
      spl_idxs = Idxs [3], rng_state = [[0]], num_trials = 1, max_trials_cur = 2\<rparr>
   = Inr (Continue \<lparr>best_inlier_num = 3, best_inlier_residuals_sum = Fin 67,
                     best_inliers = [False, False, True, True, True],
                     spl_idxs = Idxs [0], rng_state = [], num_trials = 2,
                     max_trials_cur = 2\<rparr>)
   \<and> ransac_loop (example_args [- 3, 0, 3, 4, 5] 10 (3 / 2) 2 1 [[1], [3], [0]])
       [[- 3, 0, 3, 4, 5]] 5 (mean_from_estimate 10) mean_residuals
       (first_state (example_args [- 3, 0, 3, 4, 5] 10 (3 / 2) 2 1 [[1], [3], [0]]) 5)
     = Inr \<lparr>best_inlier_num = 3, best_inlier_residuals_sum = Fin 67,
            best_inliers = [False, False, True, True, True],
            spl_idxs = Idxs [0], rng_state = [], num_trials = 2, max_trials_cur = 2\<rparr>
   \<and> \<not> bound_le (Fin 67) (Fin 59)"
  using example_two_trials example_two_trials_loop by simp

text \<open>
  Claim C6. A trial never raises \<^verbatim>\<open>max_trials\<close>, and a trial that changes the best inlier
  count or the best residual sum replaces \<^verbatim>\<open>max_trials\<close> by Python's minimum of its
  current value and the adaptive bound for the new best inlier count; so \<^verbatim>\<open>max_trials\<close>
  at the end of the loop is not greater than at its start.
\<close>

theorem max_trials_only_tightens:
  "(trial args ds n from_estimate residuals s = Inr oc \<longrightarrow>
      max_trials_cur (outcome_state oc) \<le> max_trials_cur s \<and>
      ((best_inlier_num (outcome_state oc), best_inlier_residuals_sum (outcome_state oc))
         \<noteq> (best_inlier_num s, best_inlier_residuals_sum s) \<longrightarrow>
       (\<exists>t. dynamic_max_trials (best_inlier_num (outcome_state oc)) n
               (nat (min_samples args)) (stop_probability args) = Inr t \<and>
             max_trials_cur (outcome_state oc) = py_min (max_trials_cur s) t)))
   \<and> (ransac_loop args ds n from_estimate residuals s = Inr s' \<longrightarrow>
        max_trials_cur s' \<le> max_trials_cur s)"
proof (intro conjI impI)
  assume t: "trial args ds n from_estimate residuals s = Inr oc"
  show "max_trials_cur (outcome_state oc) \<le> max_trials_cur s"
    using trial_step[OF t] by simp
  assume "(best_inlier_num (outcome_state oc), best_inlier_residuals_sum (outcome_state oc))
         \<noteq> (best_inlier_num s, best_inlier_residuals_sum s)"
  then show "\<exists>t. dynamic_max_trials (best_inlier_num (outcome_state oc)) n
               (nat (min_samples args)) (stop_probability args) = Inr t \<and>
             max_trials_cur (outcome_state oc) = py_min (max_trials_cur s) t"
    using trial_best_update[OF t] by auto
next
  assume "ransac_loop args ds n from_estimate residuals s = Inr s'"
  then show "max_trials_cur s' \<le> max_trials_cur s"
    by (rule ransac_loop_max_trials)
qed

theorem max_trials_only_tightens_witness:
  "trial (example_args [- 3, 0, 3, 4, 5] 10 (3 / 2) 2 0 [[1], [3], [0]]) [[- 3, 0, 3, 4, 5]] 5
     (mean_from_estimate 10) mean_residuals
     (first_state (example_args [- 3, 0, 3, 4, 5] 10 (3 / 2) 2 0 [[1], [3], [0]]) 5)
   = Inr (Continue \<lparr>best_inlier_num = 1, best_inlier_residuals_sum = Fin 59,
                     best_inliers = [False, True, False, False, False],
                     spl_idxs = Idxs [3], rng_state = [[0]], num_trials = 1,
                     max_trials_cur = 0\<rparr>)
   \<and> max_trials_cur (first_state
        (example_args [- 3, 0, 3, 4, 5] 10 (3 / 2) 2 0 [[1], [3], [0]]) 5) = 2
   \<and> dynamic_max_trials 1 5 1 0 = Inr (Fin 0)
   \<and> py_min 2 (Fin 0) = 0
   \<and> ransac_loop (example_args [- 3, 0, 3, 4, 5] 10 (3 / 2) 2 0 [[1], [3], [0]])
       [[- 3, 0, 3, 4, 5]] 5 (mean_from_estimate 10) mean_residuals
       (first_state (example_args [- 3, 0, 3, 4, 5] 10 (3 / 2) 2 0 [[1], [3], [0]]) 5)
     = Inr \<lparr>best_inlier_num = 1, best_inlier_residuals_sum = Fin 59,
            best_inliers = [False, True, False, False, False],
            spl_idxs = Idxs [3], rng_state = [[0]], num_trials = 1, max_trials_cur = 0\<rparr>"
  using example_tightening_trial example_tightening_loop
    max_trials_only_tightens
      [of "example_args [- 3, 0, 3, 4, 5] 10 (3 / 2) 2 0 [[1], [3], [0]]" "[[- 3, 0, 3, 4, 5]]" 5
          "mean_from_estimate 10" mean_residuals
          "first_state (example_args [- 3, 0, 3, 4, 5] 10 (3 / 2) 2 0 [[1], [3], [0]]) 5"]
  by (simp add: example_args_def first_state_def dynamic_max_trials_def)

text \<open>
  Claim C7. With \<open>N\<close> the length of the first data array, \<^verbatim>\<open>ransac\<close> raises a
  \<^verbatim>\<open>ValueError\<close> whenever \<^verbatim>\<open>min_samples\<close> is not in \<open>(0, N]\<close>, or
  \<^verbatim>\<open>residual_threshold\<close> or \<^verbatim>\<open>max_trials\<close> is negative, or \<^verbatim>\<open>stop_probability\<close> is
  outside \<open>[0, 1]\<close>, or \<^verbatim>\<open>initial_inliers\<close> is given with a length other than \<open>N\<close>; the
  error is the same whatever the model class, the validity predicates, the stopping
  thresholds and the random generator are, so it is raised before any sampling or
  estimation; and when none of these conditions holds, the checks do not raise.
\<close>

theorem ransac_validates_eagerly:
  assumes "data_arrays (data args) = d0 # rest"
  shows "(\<not> (0 < min_samples args \<and> min_samples args \<le> int (length d0))
          \<or> residual_threshold args < 0
          \<or> max_trials args < 0
          \<or> \<not> (0 \<le> stop_probability args \<and> stop_probability args \<le> 1)
          \<or> (\<exists>init. initial_inliers args = Some init \<and> length init \<noteq> length d0)
          \<longrightarrow> (\<exists>msg. \<forall>flag mc dv mv sn sr g ch.
                 ransac flag (args\<lparr>model_class := mc, is_data_valid := dv, is_model_valid := mv,
                                   stop_sample_num := sn, stop_residuals_sum := sr,
                                   rng := g, choice := ch\<rparr>)
                 = Inl (ValueError msg)))
         \<and> (0 < min_samples args \<and> min_samples args \<le> int (length d0)
            \<and> 0 \<le> residual_threshold args
            \<and> 0 \<le> max_trials args
            \<and> 0 \<le> stop_probability args \<and> stop_probability args \<le> 1
            \<and> (\<forall>init. initial_inliers args = Some init \<longrightarrow> length init = length d0)
            \<longrightarrow> check_args args (length d0) = Inr ())"
proof (intro conjI impI)
  assume bad: "\<not> (0 < min_samples args \<and> min_samples args \<le> int (length d0))
          \<or> residual_threshold args < 0
          \<or> max_trials args < 0
          \<or> \<not> (0 \<le> stop_probability args \<and> stop_probability args \<le> 1)
          \<or> (\<exists>init. initial_inliers args = Some init \<and> length init \<noteq> length d0)"
  then have "\<exists>e. check_args args (length d0) = Inl e"
    by (auto simp: check_args_def)
  then obtain msg where c: "check_args args (length d0) = Inl (ValueError msg)"
    using check_args_ValueError by blast
  have "ransac flag (args\<lparr>model_class := mc, is_data_valid := dv, is_model_valid := mv,
                          stop_sample_num := sn, stop_residuals_sum := sr,
                          rng := g, choice := ch\<rparr>)
        = Inl (ValueError msg)" for flag mc dv mv sn sr g ch
    by (rule ransac_check_fails[where ?d0.0 = d0 and rest = rest])
       (simp_all add: assms check_args_cong c)
  then show "\<exists>msg. \<forall>flag mc dv mv sn sr g ch.
                 ransac flag (args\<lparr>model_class := mc, is_data_valid := dv, is_model_valid := mv,
                                   stop_sample_num := sn, stop_residuals_sum := sr,
                                   rng := g, choice := ch\<rparr>)
                 = Inl (ValueError msg)"
    by blast
next
  assume "0 < min_samples args \<and> min_samples args \<le> int (length d0)
            \<and> 0 \<le> residual_threshold args
            \<and> 0 \<le> max_trials args
            \<and> 0 \<le> stop_probability args \<and> stop_probability args \<le> 1
            \<and> (\<forall>init. initial_inliers args = Some init \<longrightarrow> length init = length d0)"
  then show "check_args args (length d0) = Inr ()"
    by (auto simp: check_args_def split: option.splits)
qed

theorem ransac_validates_eagerly_witness:
  "data_arrays (data (example_args [0, 1, 2] 10 (16 / 10) (- 1) 1 [[0], [1]])) = [0, 1, 2] # []
   \<and> max_trials (example_args [0, 1, 2] 10 (16 / 10) (- 1) 1 [[0], [1]]) < 0
   \<and> (\<exists>msg. \<forall>flag mc dv mv sn sr g ch.
         ransac flag (example_args [0, 1, 2] 10 (16 / 10) (- 1) 1 [[0], [1]]
                        \<lparr>model_class := mc, is_data_valid := dv, is_model_valid := mv,
                         stop_sample_num := sn, stop_residuals_sum := sr,
                         rng := g, choice := ch\<rparr>)
         = Inl (ValueError msg))
   \<and> data_arrays (data (example_args [0, 1, 2] 10 (16 / 10) 1 1 [[0], [1]])) = [0, 1, 2] # []
   \<and> check_args (example_args [0, 1, 2] 10 (16 / 10) 1 1 [[0], [1]]) (length [0, 1, 2 :: real])
     = Inr ()"
proof -
  have bad: "data_arrays (data (example_args [0, 1, 2] 10 (16 / 10) (- 1) 1 [[0], [1]]))
             = [0, 1, 2] # []"
    by (simp add: example_args_def)
  have good: "data_arrays (data (example_args [0, 1, 2] 10 (16 / 10) 1 1 [[0], [1]]))
              = [0, 1, 2] # []"
    by (simp add: example_args_def)
  have neg: "max_trials (example_args [0, 1, 2] 10 (16 / 10) (- 1) 1 [[0], [1]]) < 0"
    by (simp add: example_args_def)
  have "\<exists>msg. \<forall>flag mc dv mv sn sr g ch.
         ransac flag (example_args [0, 1, 2] 10 (16 / 10) (- 1) 1 [[0], [1]]
                        \<lparr>model_class := mc, is_data_valid := dv, is_model_valid := mv,
                         stop_sample_num := sn, stop_residuals_sum := sr,
                         rng := g, choice := ch\<rparr>)
         = Inl (ValueError msg)"
    using ransac_validates_eagerly [OF bad] neg by blast
  moreover have "check_args (example_args [0, 1, 2] 10 (16 / 10) 1 1 [[0], [1]])
                   (length [0, 1, 2 :: real]) = Inr ()"
    using ransac_validates_eagerly [OF good] by (simp add: example_args_def)
  ultimately show ?thesis
    using bad good neg by blast
qed





section \<open>Properties of the estimators\<close>























section \<open>Claims about the estimators\<close>








section \<open>Properties of the consensus engine on a store\<close>

lemma extends_refl: "extends st st"
  by (simp add: extends_def)

lemma extends_trans: "extends a b \<Longrightarrow> extends b c \<Longrightarrow> extends a c"
  unfolding extends_def
  by (metis append_eq_conv_conj append_take_drop_id take_append length_take min.absorb2
        nat_le_linear take_all)

lemma extends_length: "extends a b \<Longrightarrow> length a \<le> length b"
  unfolding extends_def by (metis length_take min.cobounded1)

lemma extends_nth: "extends a b \<Longrightarrow> i < length a \<Longrightarrow> b ! i = a ! i"
  unfolding extends_def by (metis nth_take)

lemma extends_append: "extends st (st @ xs)"
  by (simp add: extends_def)

lemma extendsI:
  assumes "length a \<le> length b" and "\<And>i. i < length a \<Longrightarrow> b ! i = a ! i"
  shows "extends a b"
  unfolding extends_def using assms by (simp add: list_eq_iff_nth_eq)


lemma gather_st_fresh:
  assumes "gather_st st refs idx = (r, st')"
  shows "extends st st' \<and> (\<forall>bs. r = Inr bs \<longrightarrow> (\<forall>b \<in> set bs. length st \<le> b))"
  using assms
proof (induction refs arbitrary: st r st')
  case Nil
  then show ?case by (auto simp: extends_refl)
next
  case (Cons a as)
  show ?case
  proof (cases "fancy_index (st ! a) idx")
    case (Inl e)
    with Cons.prems show ?thesis by (auto simp: extends_refl)
  next
    case (Inr x)
    obtain r2 st2 where g: "gather_st (st @ [x]) as idx = (r2, st2)"
      by fastforce
    from Cons.IH[OF g]
    have e: "extends (st @ [x]) st2"
      and f: "\<forall>bs. r2 = Inr bs \<longrightarrow> (\<forall>b \<in> set bs. length (st @ [x]) \<le> b)"
      by simp_all
    have e': "extends st st2"
      using extends_trans[OF extends_append e] .
    from Cons.prems Inr g have st': "st' = st2"
      by (auto split: sum.splits)
    from Cons.prems Inr g f have "\<forall>bs. r = Inr bs \<longrightarrow> (\<forall>b \<in> set bs. length st \<le> b)"
      by (fastforce split: sum.splits)
    with e' st' show ?thesis by simp
  qed
qed

lemma writes_only_args_fresh:
  assumes "writes_only_args f" and "extends st0 st" and "\<forall>b \<in> set as. length st0 \<le> b"
    and "f st as = (r, st')"
  shows "extends st0 st'"
proof (rule extendsI)
  from assms(1) assms(4) have len: "length st \<le> length st'"
    unfolding writes_only_args_def by (metis snd_conv)
  with extends_length[OF assms(2)] show "length st0 \<le> length st'"
    by simp
  fix i
  assume i: "i < length st0"
  with extends_length[OF assms(2)] have "i < length st"
    by simp
  moreover from i assms(3) have "i \<notin> set as"
    by auto
  ultimately have "st' ! i = st ! i"
    using assms(1) assms(4) unfolding writes_only_args_def by (metis snd_conv)
  with extends_nth[OF assms(2) i] show "st' ! i = st0 ! i"
    by simp
qed

lemma reads_only_extends:
  assumes "reads_only f" and "extends st0 st" and "f st as = (r, st')"
  shows "extends st0 st'"
proof -
  from assms(1) assms(3) have "extends st st'"
    unfolding reads_only_def by (metis snd_conv)
  with assms(2) show ?thesis
    by (rule extends_trans)
qed

lemma predicate_fresh:
  assumes "\<forall>valid. p = Some valid \<longrightarrow> writes_only_args valid"
    and "extends st0 st" and "\<forall>b \<in> set as. length st0 \<le> b"
    and "(case p of Some valid \<Rightarrow> valid st as | None \<Rightarrow> (Inr True, st)) = (ok, st')"
  shows "extends st0 st'"
proof (cases p)
  case None
  with assms(2) assms(4) show ?thesis by simp
next
  case (Some valid)
  with assms(1) have w: "writes_only_args valid" by simp
  from Some assms(4) have v: "valid st as = (ok, st')" by simp
  show ?thesis
    using writes_only_args_fresh[where f = valid, OF w assms(2) assms(3) v] .
qed

lemma trial_st_extends:
  assumes wb: "well_behaved ms" and t: "trial_st args ms refs n s st = (r, st')"
  shows "extends st st'"
proof -
  let ?s1 = "s\<lparr>num_trials := num_trials s + 1\<rparr>"
  obtain r1 st1 where g: "gather_st st refs (spl_idxs ?s1) = (r1, st1)"
    by fastforce
  note g1 = gather_st_fresh[OF g]
  show ?thesis
  proof (cases r1)
    case (Inl e)
    with t g have "st' = st1"
      by (simp add: trial_st_def Let_def)
    with g1 show ?thesis by simp
  next
    case (Inr samples)
    with g1 have e1: "extends st st1" and fresh: "\<forall>b \<in> set samples. length st \<le> b"
      by simp_all
    obtain ok st2 where dv:
      "(case is_data_valid_st ms of Some valid \<Rightarrow> valid st1 samples | None \<Rightarrow> (Inr True, st1))
       = (ok, st2)"
      by fastforce
    have e2: "extends st st2"
      using wb predicate_fresh[where p = "is_data_valid_st ms", OF _ e1 fresh dv]
      by (simp add: well_behaved_def)
    show ?thesis
    proof (cases "ok = Inr True")
      case False
      with t g Inr dv have "st' = st2"
        by (cases ok) (auto simp: trial_st_def Let_def split: prod.splits)
      with e2 show ?thesis by simp
    next
      case True
      obtain r3 st3 where fe: "from_estimate_st ms st2 samples = (r3, st3)"
        by fastforce
      have e3: "extends st st3"
        using wb writes_only_args_fresh[where f = "from_estimate_st ms", OF _ e2 fresh fe]
        by (simp add: well_behaved_def)
      show ?thesis
      proof (cases r3)
        case (Inl e)
        with t g Inr dv True fe have "st' = st3"
          by (simp add: trial_st_def Let_def split: prod.splits)
        with e3 show ?thesis by simp
      next
        case r3: (Inr est)
        show ?thesis
        proof (cases est)
          case (FailedEstimation msg)
          with t g Inr dv True fe r3 have "st' = st3"
            by (simp add: trial_st_def Let_def split: prod.splits)
          with e3 show ?thesis by simp
        next
          case (Fitted model)
          obtain okm st4 where mv:
            "(case is_model_valid_st ms of
                Some valid \<Rightarrow> valid (Fitted model) st3 samples | None \<Rightarrow> (Inr True, st3))
             = (okm, st4)"
            by fastforce
          have w: "\<forall>valid. map_option (\<lambda>v. v (Fitted model)) (is_model_valid_st ms) = Some valid
                  \<longrightarrow> writes_only_args valid"
            using wb by (auto simp: well_behaved_def)
          have c: "(case map_option (\<lambda>v. v (Fitted model)) (is_model_valid_st ms) of
                Some valid \<Rightarrow> valid st3 samples | None \<Rightarrow> (Inr True, st3)) = (okm, st4)"
            using mv by (cases "is_model_valid_st ms") simp_all
          have e4: "extends st st4"
            using predicate_fresh
                    [where p = "map_option (\<lambda>v. v (Fitted model)) (is_model_valid_st ms)",
                     OF w e3 fresh c] .
          show ?thesis
          proof (cases "okm = Inr True")
            case False
            with t g Inr dv True fe r3 Fitted mv have "st' = st4"
              by (cases okm) (auto simp: trial_st_def Let_def split: prod.splits)
            with e4 show ?thesis by simp
          next
            case okm: True
            obtain r5 st5 where rs: "residuals_st ms model st4 refs = (r5, st5)"
              by fastforce
            have e5: "extends st st5"
              using wb reads_only_extends[where f = "residuals_st ms model", OF _ e4 rs]
              by (simp add: well_behaved_def)
            from t g Inr dv True fe r3 Fitted mv okm rs have "st' = st5"
              by (cases r5) (simp_all add: trial_st_def Let_def split: prod.splits)
            with e5 show ?thesis by simp
          qed
        qed
      qed
    qed
  qed
qed


lemma loop_st_extends:
  assumes "well_behaved ms" and "loop_st args ms refs n s st = (r, st')"
  shows "extends st st'"
  using assms
proof (induction args ms refs n s st rule: loop_st.induct)
  case (1 args ms refs n s st)
  show ?case
  proof (cases "real (num_trials s) < max_trials_cur s")
    case False
    with "1.prems" show ?thesis by (simp add: extends_refl)
  next
    case True
    obtain r1 st1 where t: "trial_st args ms refs n s st = (r1, st1)"
      by fastforce
    note e1 = trial_st_extends[OF "1.prems"(1) t]
    show ?thesis
    proof (cases r1)
      case (Inl e)
      with True t "1.prems"(2) have "st' = st1" by simp
      with e1 show ?thesis by simp
    next
      case (Inr oc)
      show ?thesis
      proof (cases oc)
        case (Break s1)
        with True t Inr "1.prems"(2) have "st' = st1" by simp
        with e1 show ?thesis by simp
      next
        case (Continue s1)
        with True t Inr "1.prems"(2) have "loop_st args ms refs n s1 st1 = (r, st')"
          by simp
        then have "extends st1 st'"
          using "1.IH"[OF True t[symmetric] Inr Continue "1.prems"(1)] by simp
        with e1 show ?thesis by (rule extends_trans)
      qed
    qed
  qed
qed

lemma final_st_extends:
  assumes wb: "well_behaved ms" and f: "final_st flag args ms refs s st = (r, st')"
  shows "extends st st'"
proof (cases "list_ex (\<lambda>b. b) (best_inliers s)")
  case False
  with f show ?thesis by (simp add: final_st_def extends_refl)
next
  case True
  obtain r1 st1 where g: "gather_st st refs (Mask (best_inliers s)) = (r1, st1)"
    by fastforce
  note g1 = gather_st_fresh[OF g]
  show ?thesis
  proof (cases r1)
    case (Inl e)
    with f True g have "st' = st1" by (simp add: final_st_def)
    with g1 show ?thesis by simp
  next
    case (Inr data_inliers)
    with g1 have e1: "extends st st1" and fresh: "\<forall>b \<in> set data_inliers. length st \<le> b"
      by simp_all
    obtain r2 st2 where fe: "from_estimate_st ms st1 data_inliers = (r2, st2)"
      by fastforce
    have e2: "extends st st2"
      using wb writes_only_args_fresh[where f = "from_estimate_st ms", OF _ e1 fresh fe]
      by (simp add: well_behaved_def)
    show ?thesis
    proof (cases r2)
      case (Inl e)
      with f True g Inr fe have "st' = st2" by (simp add: final_st_def)
      with e2 show ?thesis by simp
    next
      case r2: (Inr model)
      obtain okm st3 where mv:
        "(case is_model_valid_st ms of
            Some valid \<Rightarrow> valid model st2 data_inliers | None \<Rightarrow> (Inr True, st2))
         = (okm, st3)"
        by fastforce
      have w: "\<forall>valid. map_option (\<lambda>v. v model) (is_model_valid_st ms) = Some valid
                \<longrightarrow> writes_only_args valid"
        using wb by (auto simp: well_behaved_def)
      have c: "(case map_option (\<lambda>v. v model) (is_model_valid_st ms) of
                  Some valid \<Rightarrow> valid st2 data_inliers | None \<Rightarrow> (Inr True, st2))
               = (okm, st3)"
        using mv by (cases "is_model_valid_st ms") simp_all
      have e3: "extends st st3"
        using predicate_fresh[where p = "map_option (\<lambda>v. v model) (is_model_valid_st ms)",
                OF w e2 fresh c] .
      from f True g Inr fe r2 mv have "st' = st3"
        by (auto simp: final_st_def Let_def split: sum.splits)
      with e3 show ?thesis by simp
    qed
  qed
qed

lemma ransac_st_extends:
  assumes "well_behaved ms"
  shows "extends st (snd (ransac_st flag args ms dref st))"
proof (cases "data_refs dref")
  case Nil
  then show ?thesis by (simp add: ransac_st_def extends_refl)
next
  case (Cons a0 rest)
  show ?thesis
  proof (cases "check_args args (length (st ! a0))")
    case (Inl e)
    with Cons show ?thesis by (simp add: ransac_st_def extends_refl)
  next
    case (Inr u)
    obtain r1 st1 where l: "loop_st args ms (a0 # rest) (length (st ! a0))
                              (first_state args (length (st ! a0))) st = (r1, st1)"
      by fastforce
    note e1 = loop_st_extends[OF assms l]
    show ?thesis
    proof (cases r1)
      case (Inl e)
      with Cons Inr l e1 show ?thesis by (simp add: ransac_st_def)
    next
      case r1: (Inr s)
      obtain r2 st2 where f: "final_st flag args ms (a0 # rest) s st1 = (r2, st2)"
        by fastforce
      from final_st_extends[OF assms f] e1 have "extends st st2"
        using extends_trans by blast
      with Cons Inr l r1 f show ?thesis by (simp add: ransac_st_def)
    qed
  qed
qed

lemma well_behaved_pure_methods:
  "well_behaved (pure_methods from_estimate residuals data_valid model_valid attr)"
  by (auto simp: well_behaved_def pure_methods_def writes_only_args_def reads_only_def
        extends_def)

lemma loop_st_Continue:
  assumes "real (num_trials s) < max_trials_cur s"
    and "trial_st args ms refs n s st = (Inr (Continue s'), st')"
  shows "loop_st args ms refs n s st = loop_st args ms refs n s' st'"
  using assms by (subst loop_st.simps) simp

lemma loop_st_exit:
  assumes "\<not> real (num_trials s) < max_trials_cur s"
  shows "loop_st args ms refs n s st = (Inr s, st)"
  using assms by (subst loop_st.simps) simp

lemma example_in_place_run:
  "ransac_st True (example_args [0, 1, 2] 10 (16 / 10) 1 1 [[1], [0]]) in_place_methods
     (SingleRef 0) [[0, 1, 2]]
   = (Inr ((Some (Fitted 0), Some [True, True, True]), []), [[- 1, 0, 1], [1], [- 1, 0, 1]])"
proof -
  let ?A = "example_args [0, 1, 2] 10 (16 / 10) 1 1 [[1], [0]]"
  let ?S1 = "\<lparr>best_inlier_num = 3, best_inlier_residuals_sum = Fin 2,
              best_inliers = [True, True, True], spl_idxs = Idxs [0], rng_state = [],
              num_trials = 1, max_trials_cur = 1\<rparr> :: nat list list loop_state"
  obtain t where t: "dynamic_max_trials (Suc (Suc (Suc 0))) 3 1 1 = Inr (Fin t)" "\<not> t < 1"
    using dynamic_max_trials_ge_1[of "Suc (Suc (Suc 0))" 3 1 1] by auto
  have c0: "real (num_trials (first_state ?A 3)) < max_trials_cur (first_state ?A 3)"
    by (simp add: example_args_def first_state_def)
  have t1: "trial_st ?A in_place_methods [0] 3 (first_state ?A 3) [[0, 1, 2]]
            = (Inr (Continue ?S1), [[- 1, 0, 1], [1]])"
    using t by (simp add: trial_st_def in_place_methods_def score_def example_args_def
                  first_state_def Let_def)
  have c1: "\<not> real (num_trials ?S1) < max_trials_cur ?S1"
    by simp
  have l: "loop_st ?A in_place_methods [0] 3 (first_state ?A 3) [[0, 1, 2]]
           = (Inr ?S1, [[- 1, 0, 1], [1]])"
    by (simp only: loop_st_Continue[OF c0 t1] loop_st_exit[OF c1])
  have f: "final_st True ?A in_place_methods [0] ?S1 [[- 1, 0, 1], [1]]
           = (Inr ((Some (Fitted 0), Some [True, True, True]), []),
              [[- 1, 0, 1], [1], [- 1, 0, 1]])"
    by (simp add: final_st_def in_place_methods_def Let_def)
  have c: "check_args ?A 3 = Inr ()"
    by (simp add: check_args_def example_args_def)
  have len: "length ([[0, 1, 2 :: real]] ! 0) = 3"
    by simp
  show ?thesis
    unfolding ransac_st_def
    by (simp only: data_refs.simps list.case Let_def len c l f sum.case prod.case)
qed


lemma gather_st_pure:
  assumes "\<forall>a \<in> set refs. a < length st"
  shows "\<exists>r st'. gather_st st refs idx = (r, st') \<and> extends st st' \<and>
           (case gather (map (\<lambda>a. st ! a) refs) idx of
              Inl e \<Rightarrow> r = Inl e
            | Inr xs \<Rightarrow> (\<exists>bs. r = Inr bs \<and> map (\<lambda>b. st' ! b) bs = xs))"
  using assms
proof (induction refs arbitrary: st)
  case Nil
  then show ?case by (simp add: extends_refl)
next
  case (Cons a as)
  show ?case
  proof (cases "fancy_index (st ! a) idx")
    case (Inl e)
    then show ?thesis by (simp add: extends_refl)
  next
    case (Inr x)
    have valid: "\<forall>b \<in> set as. b < length (st @ [x])"
      using Cons.prems by auto
    have same: "map (\<lambda>b. (st @ [x]) ! b) as = map (\<lambda>b. st ! b) as"
      using Cons.prems by (auto simp: nth_append)
    from Cons.IH[OF valid] obtain r2 st2 where
      g: "gather_st (st @ [x]) as idx = (r2, st2)" and
      e: "extends (st @ [x]) st2" and
      c: "case gather (map (\<lambda>b. st ! b) as) idx of
            Inl e \<Rightarrow> r2 = Inl e
          | Inr xs \<Rightarrow> (\<exists>bs. r2 = Inr bs \<and> map (\<lambda>b. st2 ! b) bs = xs)"
      unfolding same by blast
    have e': "extends st st2"
      using extends_trans[OF extends_append e] .
    have x: "st2 ! length st = x"
      using extends_nth[OF e, of "length st"] by simp
    show ?thesis
      using Inr g e' c x by (auto split: sum.splits)
  qed
qed

lemma map_nth_extends:
  assumes "extends st st'" and "\<forall>a \<in> set refs. a < length st"
  shows "map (\<lambda>a. st' ! a) refs = map (\<lambda>a. st ! a) refs"
proof (rule map_cong[OF refl])
  fix a
  assume "a \<in> set refs"
  with assms(2) have "a < length st"
    by simp
  with assms(1) show "st' ! a = st ! a"
    by (rule extends_nth)
qed

lemma trial_st_pure:
  assumes valid: "\<forall>a \<in> set refs. a < length st"
  shows "\<exists>st'. trial_st args
                 (pure_methods from_estimate residuals (is_data_valid args) (is_model_valid args)
                    attr)
                 refs n s st
               = (trial args (map (\<lambda>a. st ! a) refs) n from_estimate residuals s, st')
               \<and> extends st st'"
proof -
  let ?s1 = "s\<lparr>num_trials := num_trials s + 1\<rparr>"
  define ds where "ds = map (\<lambda>a. st ! a) refs"
  from gather_st_pure[OF valid, of "spl_idxs ?s1"] obtain r st1 where
    g: "gather_st st refs (spl_idxs ?s1) = (r, st1)" and e: "extends st st1" and
    c: "case gather ds (spl_idxs ?s1) of
          Inl e \<Rightarrow> r = Inl e
        | Inr xs \<Rightarrow> (\<exists>bs. r = Inr bs \<and> map (\<lambda>b. st1 ! b) bs = xs)"
    unfolding ds_def by blast
  have d: "map (\<lambda>a. st1 ! a) refs = ds"
    unfolding ds_def using map_nth_extends[OF e valid] .
  have "\<exists>st'. trial_st args
                 (pure_methods from_estimate residuals (is_data_valid args) (is_model_valid args)
                    attr)
                 refs n s st
               = (trial args ds n from_estimate residuals s, st')
               \<and> extends st st'"
  proof (cases "gather ds (spl_idxs ?s1)")
    case (Inl err)
    with c g e show ?thesis
      by (auto simp: trial_st_def trial_def Let_def)
  next
    case (Inr xs)
    with c obtain bs where r: "r = Inr bs" and bs: "map (\<lambda>b. st1 ! b) bs = xs"
      by auto
    show ?thesis
      using g r bs Inr e d
      by (auto simp: trial_st_def trial_def Let_def pure_methods_def
               split: prod.splits option.splits sum.splits estimation.splits)
  qed
  then show ?thesis
    unfolding ds_def .
qed


lemma loop_st_pure:
  assumes "ms = pure_methods from_estimate residuals (is_data_valid args) (is_model_valid args)
                  attr"
    and "\<forall>a \<in> set refs. a < length st"
  shows "\<exists>st'. loop_st args ms refs n s st
               = (ransac_loop args (map (\<lambda>a. st ! a) refs) n from_estimate residuals s, st')
               \<and> extends st st'"
  using assms
proof (induction args ms refs n s st rule: loop_st.induct)
  case (1 args ms refs n s st)
  define ds where "ds = map (\<lambda>a. st ! a) refs"
  have goal: "\<exists>st'. loop_st args ms refs n s st
               = (ransac_loop args ds n from_estimate residuals s, st') \<and> extends st st'"
  proof (cases "real (num_trials s) < max_trials_cur s")
    case False
    then show ?thesis
      by (simp add: extends_refl)
  next
    case True
    from trial_st_pure[OF "1.prems"(2), of args from_estimate residuals attr n s]
    obtain st1 where
      t: "trial_st args ms refs n s st = (trial args ds n from_estimate residuals s, st1)"
      and e1: "extends st st1"
      unfolding ds_def "1.prems"(1) by blast
    show ?thesis
    proof (cases "trial args ds n from_estimate residuals s")
      case (Inl e)
      with True t e1 show ?thesis by simp
    next
      case (Inr oc)
      show ?thesis
      proof (cases oc)
        case (Break s1)
        with True t Inr e1 show ?thesis by simp
      next
        case (Continue s1)
        have valid1: "\<forall>a \<in> set refs. a < length st1"
          using "1.prems"(2) extends_length[OF e1] by auto
        have d1: "map (\<lambda>a. st1 ! a) refs = ds"
          unfolding ds_def using map_nth_extends[OF e1 "1.prems"(2)] .
        from "1.IH"[OF True t[symmetric] Inr Continue "1.prems"(1) valid1]
        obtain st' where
          l: "loop_st args ms refs n s1 st1
              = (ransac_loop args ds n from_estimate residuals s1, st')"
          and e2: "extends st1 st'"
          unfolding d1 by blast
        have "extends st st'"
          using extends_trans[OF e1 e2] .
        with True t Inr Continue l show ?thesis by simp
      qed
    qed
  qed
  then show ?case
    unfolding ds_def .
qed

lemma final_st_pure:
  assumes "\<forall>a \<in> set refs. a < length st"
  shows "\<exists>st'. final_st flag args
                 (pure_methods from_estimate residuals (is_data_valid args) (is_model_valid args)
                    (model_attr (model_class args)))
                 refs s st
               = (final flag args (map (\<lambda>a. st ! a) refs) from_estimate s, st')
               \<and> extends st st'"
proof -
  define ds where "ds = map (\<lambda>a. st ! a) refs"
  from gather_st_pure[OF assms, of "Mask (best_inliers s)"] obtain r st1 where
    g: "gather_st st refs (Mask (best_inliers s)) = (r, st1)" and e: "extends st st1" and
    c: "case gather ds (Mask (best_inliers s)) of
          Inl e \<Rightarrow> r = Inl e
        | Inr xs \<Rightarrow> (\<exists>bs. r = Inr bs \<and> map (\<lambda>b. st1 ! b) bs = xs)"
    unfolding ds_def by blast
  have "\<exists>st'. final_st flag args
                 (pure_methods from_estimate residuals (is_data_valid args) (is_model_valid args)
                    (model_attr (model_class args)))
                 refs s st
               = (final flag args ds from_estimate s, st') \<and> extends st st'"
  proof (cases "gather ds (Mask (best_inliers s))")
    case (Inl err)
    with c g e show ?thesis
      by (auto simp: final_st_def final_def extends_refl)
  next
    case (Inr xs)
    with c obtain bs where r: "r = Inr bs" and bs: "map (\<lambda>b. st1 ! b) bs = xs"
      by auto
    show ?thesis
      using g r bs Inr e
      by (auto simp: final_st_def final_def Let_def pure_methods_def extends_refl
               split: prod.splits option.splits sum.splits)
  qed
  then show ?thesis
    unfolding ds_def .
qed


lemma ransac_st_pure:
  assumes cls: "estimator (model_class args) = ClassMethod from_estimate"
      "residuals_attr (model_class args) = Some residuals"
    and valid: "\<forall>a \<in> set (data_refs dref). a < length st"
    and vals: "map (\<lambda>a. st ! a) (data_refs dref) = data_arrays (data args)"
  shows "fst (ransac_st flag args
                (pure_methods from_estimate residuals (is_data_valid args) (is_model_valid args)
                   (model_attr (model_class args)))
                dref st)
         = ransac flag args"
proof (cases "data_refs dref")
  case Nil
  with vals show ?thesis
    by (simp add: ransac_st_def ransac_def)
next
  case (Cons a0 rest)
  let ?ms = "pure_methods from_estimate residuals (is_data_valid args) (is_model_valid args)
               (model_attr (model_class args))"
  let ?n = "length (st ! a0)"
  from Cons vals have ds: "data_arrays (data args) = st ! a0 # map (\<lambda>a. st ! a) rest"
    by simp
  have afe: "add_from_estimate (model_class args) = Inr (from_estimate, [])"
    using cls(1) by (simp add: add_from_estimate_def)
  have valid': "\<forall>a \<in> set (a0 # rest). a < length st"
    using valid Cons by simp
  show ?thesis
  proof (cases "check_args args ?n")
    case (Inl e)
    with Cons ds show ?thesis
      by (simp add: ransac_st_def ransac_def)
  next
    case (Inr u)
    from loop_st_pure[OF refl valid', of args from_estimate residuals
           "model_attr (model_class args)" ?n "first_state args ?n"]
    obtain st1 where
      l: "loop_st args ?ms (a0 # rest) ?n (first_state args ?n) st
          = (ransac_loop args (st ! a0 # map (\<lambda>a. st ! a) rest) ?n from_estimate residuals
               (first_state args ?n), st1)"
      and e1: "extends st st1"
      by auto
    show ?thesis
    proof (cases "ransac_loop args (st ! a0 # map (\<lambda>a. st ! a) rest) ?n from_estimate
                    residuals (first_state args ?n)")
      case (Inl e)
      with Cons ds Inr afe cls(2) l show ?thesis
        by (simp add: ransac_st_def ransac_def)
    next
      case loop: (Inr s)
      have valid1: "\<forall>a \<in> set (a0 # rest). a < length st1"
        using valid' extends_length[OF e1] by auto
      have d1: "map (\<lambda>a. st1 ! a) (a0 # rest) = st ! a0 # map (\<lambda>a. st ! a) rest"
        using map_nth_extends[OF e1 valid'] by simp
      from final_st_pure[OF valid1, of flag args from_estimate residuals s]
      obtain st2 where
        f: "final_st flag args ?ms (a0 # rest) s st1
            = (final flag args (st ! a0 # map (\<lambda>a. st ! a) rest) from_estimate s, st2)"
        unfolding d1 by blast
      from Cons ds Inr afe cls(2) l loop f show ?thesis
        by (simp add: ransac_st_def ransac_def split: sum.splits)
    qed
  qed
qed

section \<open>The claim about the data arrays\<close>

text \<open>
  The proviso on \<^verbatim>\<open>from_estimate\<close> is needed as well: a \<^verbatim>\<open>from_estimate\<close> that writes to
  an array it was not handed, here the data array itself, changes the data although
  \<^verbatim>\<open>residuals\<close> writes nothing.
\<close>

lemma example_capturing_run:
  "ransac_st True (example_args [0, 1, 2] 10 (16 / 10) 1 1 [[1], [0]]) capturing_methods
     (SingleRef 0) [[0, 1, 2]]
   = (Inr ((Some (Fitted 0), Some [True, True, True]), []), [[0, 0, 0], [1], [0, 0, 0]])"
proof -
  let ?A = "example_args [0, 1, 2] 10 (16 / 10) 1 1 [[1], [0]]"
  let ?S1 = "\<lparr>best_inlier_num = 3, best_inlier_residuals_sum = Fin 3,
              best_inliers = [True, True, True], spl_idxs = Idxs [0], rng_state = [],
              num_trials = 1, max_trials_cur = 1\<rparr> :: nat list list loop_state"
  obtain t where t: "dynamic_max_trials (Suc (Suc (Suc 0))) 3 1 1 = Inr (Fin t)" "\<not> t < 1"
    using dynamic_max_trials_ge_1[of "Suc (Suc (Suc 0))" 3 1 1] by auto
  have c0: "real (num_trials (first_state ?A 3)) < max_trials_cur (first_state ?A 3)"
    by (simp add: example_args_def first_state_def)
  have t1: "trial_st ?A capturing_methods [0] 3 (first_state ?A 3) [[0, 1, 2]]
            = (Inr (Continue ?S1), [[0, 0, 0], [1]])"
    using t by (simp add: trial_st_def capturing_methods_def score_def example_args_def
                  first_state_def Let_def)
  have c1: "\<not> real (num_trials ?S1) < max_trials_cur ?S1"
    by simp
  have l: "loop_st ?A capturing_methods [0] 3 (first_state ?A 3) [[0, 1, 2]]
           = (Inr ?S1, [[0, 0, 0], [1]])"
    by (simp only: loop_st_Continue[OF c0 t1] loop_st_exit[OF c1])
  have f: "final_st True ?A capturing_methods [0] ?S1 [[0, 0, 0], [1]]
           = (Inr ((Some (Fitted 0), Some [True, True, True]), []),
              [[0, 0, 0], [1], [0, 0, 0]])"
    by (simp add: final_st_def capturing_methods_def Let_def)
  have c: "check_args ?A 3 = Inr ()"
    by (simp add: check_args_def example_args_def)
  have len: "length ([[0, 1, 2 :: real]] ! 0) = 3"
    by simp
  show ?thesis
    unfolding ransac_st_def
    by (simp only: data_refs.simps list.case Let_def len c l f sum.case prod.case)
qed

lemma capturing_methods_residuals_read_only:
  "reads_only (residuals_st capturing_methods m)
   \<and> \<not> writes_only_args (from_estimate_st capturing_methods)"
proof
  show "reads_only (residuals_st capturing_methods m)"
    by (simp add: reads_only_def capturing_methods_def extends_def)
  show "\<not> writes_only_args (from_estimate_st capturing_methods)"
  proof
    assume "writes_only_args (from_estimate_st capturing_methods)"
    then have "\<forall>a < length [[1 :: real]]. a \<notin> set ([] :: nat list) \<longrightarrow>
                 snd (from_estimate_st capturing_methods [[1]] []) ! a = [[1]] ! a"
      unfolding writes_only_args_def by blast
    from this[rule_format, of 0] show False
      by (simp add: capturing_methods_def)
  qed
qed

text \<open>
  Claim C10, as amended. \<^verbatim>\<open>ransac\<close> itself never writes to a data array: the samples of
  a trial and the final inliers are new arrays, and only these are handed to
  \<^verbatim>\<open>from_estimate\<close> and to the validity predicates, while \<^verbatim>\<open>residuals\<close> receives the
  data arrays themselves. When the callables keep to what they are handed (\<^verbatim>\<open>residuals\<close>
  writes to no array that existed before it was called, and \<^verbatim>\<open>from_estimate\<close> and the two
  predicates write to no such array other than their arguments), every array that
  existed before the call of \<^verbatim>\<open>ransac\<close>, so every data array, holds after the call
  (returning or raising) the values it held before.
\<close>

theorem ransac_st_preserves_data:
  assumes "well_behaved ms" and "\<forall>a \<in> set (data_refs dref). a < length st"
  shows "extends st (snd (ransac_st flag args ms dref st))
         \<and> (\<forall>a \<in> set (data_refs dref). snd (ransac_st flag args ms dref st) ! a = st ! a)"
  using ransac_st_extends[OF assms(1)] assms(2) extends_nth by blast

theorem ransac_st_preserves_data_witness:
  "well_behaved (pure_methods (mean_from_estimate 10) mean_residuals None None (\<lambda>m. None))
   \<and> 0 < length [[0, 1, 2 :: real]]
   \<and> snd (ransac_st True (example_args [0, 1, 2] 10 (16 / 10) 1 1 [[0], [1]])
            (pure_methods (mean_from_estimate 10) mean_residuals None None (\<lambda>m. None))
            (SingleRef 0) [[0, 1, 2]]) ! 0
     = [0, 1, 2]"
proof -
  have w: "well_behaved (pure_methods (mean_from_estimate 10) mean_residuals None None
                           (\<lambda>m. None :: real option))"
    by (rule well_behaved_pure_methods)
  have v: "\<forall>a \<in> set (data_refs (SingleRef 0)). a < length [[0, 1, 2 :: real]]"
    by simp
  show ?thesis
    using w ransac_st_preserves_data [OF w v, of True
            "example_args [0, 1, 2] 10 (16 / 10) 1 1 [[0], [1]]"]
    by simp
qed

text \<open>
  Claim C10 as stated fails for a class whose \<^verbatim>\<open>residuals\<close> writes to its argument: the
  call below returns a model and a mask, and the data array 0, 1, 2 holds -1, 0, 1
  afterwards.
\<close>

theorem data_array_changed_counterexample:
  "ransac_st True (example_args [0, 1, 2] 10 (16 / 10) 1 1 [[1], [0]]) in_place_methods
     (SingleRef 0) [[0, 1, 2]]
   = (Inr ((Some (Fitted 0), Some [True, True, True]), []), [[- 1, 0, 1], [1], [- 1, 0, 1]])
   \<and> [[- 1, 0, 1], [1], [- 1, 0, 1 :: real]] ! 0 \<noteq> [[0, 1, 2]] ! 0"
  using example_in_place_run by simp

end
